theory Spec2Isabelle
  imports Main
begin

text \<open>
  The calendar booking agent: \<^verbatim>\<open>CalendarService\<close> of \<^verbatim>\<open>calendar_service.py\<close>, which computes
  the free slots of a day and creates events, and the four tools of \<^verbatim>\<open>BookingAgent\<close> in
  \<^verbatim>\<open>agent.py\<close>, which wrap it for the conversation loop. The Python library and the calendar
  backend are parameters of every function.
\<close>

section \<open>Exceptions and the datetime module\<close>

text \<open>
  A Python exception is a value; every handler of the program is \<^verbatim>\<open>except Exception as e\<close>
  and reads only \<^verbatim>\<open>str(e)\<close>, so an exception is modelled by its text. A fallible
  computation returns \<open>exn + 'a\<close>, with \<open>Inl\<close> the raised exception. What the handlers
  print is not part of the model.
\<close>

datatype exn = Exception string

fun str :: "exn \<Rightarrow> string" where
  "str (Exception m) = m"

text \<open>
  A naive \<^verbatim>\<open>datetime\<close> is the number of microseconds since 0001-01-01T00:00:00. The type
  holds the years 1 to 9999: \<^verbatim>\<open>date.max.toordinal()\<close> is 3652059, and arithmetic that
  leaves the range raises \<^verbatim>\<open>OverflowError\<close>.
\<close>

type_synonym datetime = int

definition us_per_minute :: int where
  "us_per_minute = 60000000"

definition us_per_hour :: int where
  "us_per_hour = 3600000000"

definition us_per_day :: int where
  "us_per_day = 86400000000"

definition datetime_end :: int where
  "datetime_end = 3652059 * 86400000000"

definition in_range :: "datetime \<Rightarrow> bool" where
  "in_range t = (0 \<le> t \<and> t < datetime_end)"

text \<open>The value of \<^verbatim>\<open>datetime.fromisoformat\<close>: the wall-clock reading and the UTC offset, if any.\<close>

record aware =
  naive :: datetime
  tzinfo :: "int option"

text \<open>
  Parsing and printing belong to the Python library, and are parameters of the model: the
  functions below take a \<open>pylib\<close> and call it where the source calls the library.
  \<open>overflow\<close> is the \<^verbatim>\<open>OverflowError\<close> that datetime arithmetic raises.
\<close>

record pylib =
  strptime :: "string \<Rightarrow> string \<Rightarrow> exn + datetime"
  fromisoformat :: "string \<Rightarrow> exn + aware"
  isoformat :: "aware \<Rightarrow> string"
  lib_strftime :: "datetime \<Rightarrow> string \<Rightarrow> string"
  int_of_str :: "string \<Rightarrow> exn + int"
  overflow :: "datetime \<Rightarrow> int \<Rightarrow> exn"
  attribute_error :: exn

text \<open>
  \<^verbatim>\<open>t + timedelta(minutes=n)\<close>. A \<^verbatim>\<open>timedelta\<close> holds at most 999999999 days, more than the
  whole range of \<^verbatim>\<open>datetime\<close>, so the sum raises exactly when it leaves the range.
\<close>

definition plus_minutes :: "pylib \<Rightarrow> datetime \<Rightarrow> int \<Rightarrow> exn + datetime" where
  "plus_minutes lib t n =
     (if in_range (t + n * us_per_minute) then Inr (t + n * us_per_minute)
      else Inl (overflow lib t n))"

text \<open>\<^verbatim>\<open>t.replace(hour=h, minute=m, second=s, microsecond=us)\<close>: the same day at that time.\<close>

definition replace_time :: "datetime \<Rightarrow> int \<Rightarrow> int \<Rightarrow> int \<Rightarrow> int \<Rightarrow> datetime" where
  "replace_time t h m s us =
     t - t mod us_per_day + h * us_per_hour + m * us_per_minute + s * 1000000 + us"

text \<open>A datetime without time zone, as \<^verbatim>\<open>strptime\<close> and \<^verbatim>\<open>replace\<close> give it.\<close>

definition naive_datetime :: "datetime \<Rightarrow> aware" where
  "naive_datetime t = \<lparr>naive = t, tzinfo = None\<rparr>"

text \<open>\<^verbatim>\<open>t.strftime('%H:%M')\<close> is computed; any other format is the library's.\<close>

definition digit :: "int \<Rightarrow> char" where
  "digit d = ''0123456789'' ! nat d"

definition two_digits :: "int \<Rightarrow> string" where
  "two_digits n = [digit (n div 10), digit (n mod 10)]"

definition strftime :: "pylib \<Rightarrow> datetime \<Rightarrow> string \<Rightarrow> string" where
  "strftime lib t fmt =
     (if fmt = ''%H:%M''
      then two_digits (t mod us_per_day div us_per_hour) @ '':'' @
           two_digits (t mod us_per_hour div us_per_minute)
      else lib_strftime lib t fmt)"

text \<open>\<^verbatim>\<open>s.replace('Z', '+00:00')\<close>\<close>

definition replace_Z :: "string \<Rightarrow> string" where
  "replace_Z s = concat (map (\<lambda>c. if c = CHR ''Z'' then ''+00:00'' else [c]) s)"

section \<open>The calendar backend\<close>

text \<open>
  An event as \<^verbatim>\<open>events().list\<close> returns it. \<^verbatim>\<open>event['start']\<close> and \<^verbatim>\<open>event['end']\<close> are
  always present in the API's answer; each holds \<^verbatim>\<open>dateTime\<close> for a timed event or
  \<^verbatim>\<open>date\<close> for an all-day one.
\<close>

record event_time =
  et_dateTime :: "string option"
  et_date :: "string option"

record event =
  ev_summary :: "string option"
  ev_description :: "string option"
  ev_start :: event_time
  ev_end :: event_time

text \<open>The body that \<^verbatim>\<open>create_event\<close> sends, and the backend's answer to an insertion.\<close>

record body_time =
  bt_dateTime :: string
  bt_timeZone :: string

record event_body =
  body_summary :: string
  body_description :: string
  body_start :: body_time
  body_end :: body_time

record created =
  created_id :: string
  htmlLink :: "string option"

text \<open>
  The backend is external. Its state is the log of the insertion requests it has
  received, each with the answer it gave: the created event, or the exception that the
  call raised. What it answers to a query and to an insertion is a parameter, and may
  depend on the whole log. An insertion is atomic: the events of the calendar are the
  requests that were answered with a created event.
\<close>

type_synonym backend = "((exn + created) \<times> event_body) list"

record service =
  list_response :: "backend \<Rightarrow> string \<Rightarrow> string \<Rightarrow> exn + event list"
  insert_response :: "backend \<Rightarrow> event_body \<Rightarrow> exn + created"

definition events_insert :: "service \<Rightarrow> backend \<Rightarrow> event_body \<Rightarrow> (exn + created) \<times> backend" where
  "events_insert svc b body =
     (insert_response svc b body, b @ [(insert_response svc b body, body)])"

definition stored_events :: "backend \<Rightarrow> (created \<times> event_body) list" where
  "stored_events b =
     concat (map (\<lambda>(answer, body). case answer of Inl e \<Rightarrow> [] | Inr c \<Rightarrow> [(c, body)]) b)"

section \<open>CalendarService.get_available_slots\<close>

record slot =
  slot_start_time :: string
  slot_end_time :: string
  slot_datetime :: string

text \<open>The test of line 70, on the slot \<open>[current_time, slot_end)\<close> and one event.\<close>

definition conflicts :: "datetime \<Rightarrow> datetime \<Rightarrow> datetime \<Rightarrow> datetime \<Rightarrow> bool" where
  "conflicts current_time slot_end event_start event_end =
     (current_time < event_end \<and> slot_end > event_start)"

text \<open>
  Lines 63 to 68 for one end of an event: \<^verbatim>\<open>.get('dateTime', .get('date'))\<close>, the text
  with \<open>Z\<close> replaced, parsed, and the time zone dropped. On \<^verbatim>\<open>None\<close> the call of
  \<^verbatim>\<open>replace\<close> raises \<^verbatim>\<open>AttributeError\<close>.
\<close>

definition event_datetime :: "pylib \<Rightarrow> event_time \<Rightarrow> exn + datetime" where
  "event_datetime lib et =
     (case (case et_dateTime et of Some s \<Rightarrow> Some s | None \<Rightarrow> et_date et) of
        None \<Rightarrow> Inl (attribute_error lib)
      | Some s \<Rightarrow>
          (case fromisoformat lib (replace_Z s) of
             Inl e \<Rightarrow> Inl e
           | Inr a \<Rightarrow> Inr (naive a)))"

text \<open>The \<^verbatim>\<open>for\<close> loop of lines 61 to 72: it leaves at the first event in conflict.\<close>

fun is_available :: "pylib \<Rightarrow> event list \<Rightarrow> datetime \<Rightarrow> datetime \<Rightarrow> exn + bool" where
  "is_available lib [] current_time slot_end = Inr True"
| "is_available lib (event # events) current_time slot_end =
     (case event_datetime lib (ev_start event) of
        Inl e \<Rightarrow> Inl e
      | Inr event_start \<Rightarrow>
          (case event_datetime lib (ev_end event) of
             Inl e \<Rightarrow> Inl e
           | Inr event_end \<Rightarrow>
               if conflicts current_time slot_end event_start event_end then Inr False
               else is_available lib events current_time slot_end))"

definition slot_dict :: "pylib \<Rightarrow> datetime \<times> datetime \<Rightarrow> slot" where
  "slot_dict lib iv =
     \<lparr>slot_start_time = strftime lib (fst iv) ''%H:%M'',
      slot_end_time = strftime lib (snd iv) ''%H:%M'',
      slot_datetime = isoformat lib (naive_datetime (fst iv))\<rparr>"

text \<open>The \<^verbatim>\<open>while\<close> loop of lines 57 to 81.\<close>

function slots_loop ::
  "pylib \<Rightarrow> event list \<Rightarrow> int \<Rightarrow> datetime \<Rightarrow> datetime \<Rightarrow> slot list \<Rightarrow> exn + slot list" where
  "slots_loop lib events duration_minutes end_time current_time available_slots =
     (case plus_minutes lib current_time duration_minutes of
        Inl e \<Rightarrow> Inl e
      | Inr slot_end \<Rightarrow>
          if slot_end \<le> end_time then
            (case is_available lib events current_time slot_end of
               Inl e \<Rightarrow> Inl e
             | Inr ok \<Rightarrow>
                 (case plus_minutes lib current_time 30 of
                    Inl e \<Rightarrow> Inl e
                  | Inr next_time \<Rightarrow>
                      slots_loop lib events duration_minutes end_time next_time
                        (if ok then available_slots @ [slot_dict lib (current_time, slot_end)]
                         else available_slots)))
          else Inr available_slots)"
  by pat_completeness auto
termination
  by (relation "measure (\<lambda>(lib, events, duration_minutes, end_time, current_time, available_slots).
        nat (end_time - duration_minutes * us_per_minute - current_time + 1))")
     (auto simp: plus_minutes_def us_per_minute_def split: if_splits)

text \<open>The body of the \<^verbatim>\<open>try\<close> block, lines 35 to 83.\<close>

definition get_available_slots_try ::
  "pylib \<Rightarrow> service \<Rightarrow> backend \<Rightarrow> string \<Rightarrow> int \<Rightarrow> exn + slot list" where
  "get_available_slots_try lib svc b date duration_minutes =
     (case strptime lib date ''%Y-%m-%d'' of
        Inl e \<Rightarrow> Inl e
      | Inr target_date \<Rightarrow>
          (let start_time = replace_time target_date 9 0 0 0;
               end_time = replace_time target_date 17 0 0 0
           in case list_response svc b (isoformat lib (naive_datetime start_time) @ ''Z'')
                     (isoformat lib (naive_datetime end_time) @ ''Z'') of
                Inl e \<Rightarrow> Inl e
              | Inr events \<Rightarrow> slots_loop lib events duration_minutes end_time start_time []))"

definition get_available_slots :: "pylib \<Rightarrow> service \<Rightarrow> backend \<Rightarrow> string \<Rightarrow> int \<Rightarrow> slot list" where
  "get_available_slots lib svc b date duration_minutes =
     (case get_available_slots_try lib svc b date duration_minutes of
        Inl e \<Rightarrow> []
      | Inr available_slots \<Rightarrow> available_slots)"

section \<open>CalendarService.create_event and CalendarService.get_events\<close>

text \<open>
  The dictionary that \<^verbatim>\<open>create_event\<close> returns; the failure dictionary has no
  \<^verbatim>\<open>event_id\<close> and no \<^verbatim>\<open>event_link\<close>. The answer of the backend always carries
  \<^verbatim>\<open>id\<close>; \<^verbatim>\<open>htmlLink\<close> is read with the default \<^verbatim>\<open>''\<close>.
\<close>

record create_result =
  success :: bool
  event_id :: "string option"
  event_link :: "string option"
  message :: string

definition quote :: string where
  "quote = [CHR 0x27]"

definition created_result :: "string \<Rightarrow> created \<Rightarrow> create_result" where
  "created_result title created_event =
     \<lparr>success = True,
      event_id = Some (created_id created_event),
      event_link = Some (case htmlLink created_event of None \<Rightarrow> [] | Some l \<Rightarrow> l),
      message = ''Event '' @ quote @ title @ quote @ '' created successfully''\<rparr>"

definition failed_result :: "exn \<Rightarrow> create_result" where
  "failed_result e =
     \<lparr>success = False, event_id = None, event_link = None,
      message = ''Failed to create event: '' @ str e\<rparr>"

text \<open>
  \<^verbatim>\<open>start_time + timedelta(minutes=n)\<close> on the value of \<^verbatim>\<open>fromisoformat\<close>: the sum is
  taken on the wall-clock reading and keeps the time zone.
\<close>

definition aware_plus_minutes :: "pylib \<Rightarrow> aware \<Rightarrow> int \<Rightarrow> exn + aware" where
  "aware_plus_minutes lib a n =
     (case plus_minutes lib (naive a) n of
        Inl e \<Rightarrow> Inl e
      | Inr t \<Rightarrow> Inr (a\<lparr>naive := t\<rparr>))"

definition event_of :: "pylib \<Rightarrow> string \<Rightarrow> string \<Rightarrow> aware \<Rightarrow> aware \<Rightarrow> event_body" where
  "event_of lib title description start_time end_time =
     \<lparr>body_summary = title,
      body_description = description,
      body_start = \<lparr>bt_dateTime = isoformat lib start_time, bt_timeZone = ''UTC''\<rparr>,
      body_end = \<lparr>bt_dateTime = isoformat lib end_time, bt_timeZone = ''UTC''\<rparr>\<rparr>"

text \<open>Lines 89 to 125. The second component is the backend after the call.\<close>

definition create_event ::
  "pylib \<Rightarrow> service \<Rightarrow> backend \<Rightarrow> string \<Rightarrow> string \<Rightarrow> int \<Rightarrow> string \<Rightarrow> create_result \<times> backend" where
  "create_event lib svc b title start_datetime duration_minutes description =
     (case fromisoformat lib start_datetime of
        Inl e \<Rightarrow> (failed_result e, b)
      | Inr start_time \<Rightarrow>
          (case aware_plus_minutes lib start_time duration_minutes of
             Inl e \<Rightarrow> (failed_result e, b)
           | Inr end_time \<Rightarrow>
               (case events_insert svc b (event_of lib title description start_time end_time) of
                  (Inl e, b') \<Rightarrow> (failed_result e, b')
                | (Inr created_event, b') \<Rightarrow> (created_result title created_event, b'))))"





section \<open>The tools of BookingAgent\<close>

text \<open>
  A tool returns \<open>exn + string\<close>: \<open>Inr\<close> the text it returns, \<open>Inl\<close> an exception that
  leaves it. Each is the body of its \<^verbatim>\<open>try\<close> block followed by the handler.
\<close>

definition newline :: string where
  "newline = [CHR 0x0A]"

fun join :: "string \<Rightarrow> string list \<Rightarrow> string" where
  "join sep [] = []"
| "join sep [x] = x"
| "join sep (x # y # ys) = x @ sep @ join sep (y # ys)"

definition slot_line :: "slot \<Rightarrow> string" where
  "slot_line slot = slot_start_time slot @ '' - '' @ slot_end_time slot"

definition check_availability_try :: "pylib \<Rightarrow> service \<Rightarrow> backend \<Rightarrow> string \<Rightarrow> exn + string" where
  "check_availability_try lib svc b date_str =
     (let slots = get_available_slots lib svc b date_str 60
      in if slots = []
         then Inr (''No available slots found for '' @ date_str @ ''. Please try another date.'')
         else Inr (''Available slots for '' @ date_str @ '':'' @ newline @
                   join newline (map slot_line (take 8 slots))))"

definition check_availability :: "pylib \<Rightarrow> service \<Rightarrow> backend \<Rightarrow> string \<Rightarrow> exn + string" where
  "check_availability lib svc b date_str =
     (case check_availability_try lib svc b date_str of
        Inl e \<Rightarrow> Inr (''Error checking availability: '' @ str e)
      | Inr text \<Rightarrow> Inr text)"

text \<open>The two marks of \<^verbatim>\<open>book_appointment\<close>, U+2705 and U+274C, in UTF-8.\<close>

definition check_mark :: string where
  "check_mark = [CHR 0xE2, CHR 0x9C, CHR 0x85]"

definition cross_mark :: string where
  "cross_mark = [CHR 0xE2, CHR 0x9D, CHR 0x8C]"

definition book_appointment_try ::
  "pylib \<Rightarrow> service \<Rightarrow> backend \<Rightarrow> string \<Rightarrow> string \<Rightarrow> string \<Rightarrow> string \<Rightarrow> (exn + string) \<times> backend" where
  "book_appointment_try lib svc b title date time duration =
     (case strptime lib (date @ '' '' @ time) ''%Y-%m-%d %H:%M'' of
        Inl e \<Rightarrow> (Inl e, b)
      | Inr start_datetime \<Rightarrow>
          (case int_of_str lib duration of
             Inl e \<Rightarrow> (Inl e, b)
           | Inr duration_minutes \<Rightarrow>
               (case create_event lib svc b title (isoformat lib (naive_datetime start_datetime))
                       duration_minutes [] of
                  (result, b') \<Rightarrow>
                    if success result
                    then (Inr (check_mark @ '' Appointment '' @ quote @ title @ quote @
                               '' booked successfully for '' @ date @ '' at '' @ time @ ''!''), b')
                    else (Inr (cross_mark @ '' Failed to book appointment: '' @ message result), b'))))"

definition book_appointment ::
  "pylib \<Rightarrow> service \<Rightarrow> backend \<Rightarrow> string \<Rightarrow> string \<Rightarrow> string \<Rightarrow> string \<Rightarrow> (exn + string) \<times> backend" where
  "book_appointment lib svc b title date time duration =
     (case book_appointment_try lib svc b title date time duration of
        (Inl e, b') \<Rightarrow> (Inr (''Error booking appointment: '' @ str e), b')
      | (Inr text, b') \<Rightarrow> (Inr text, b'))"





text \<open>
  The lines of a text, as \<^verbatim>\<open>text.split('\n')\<close> gives them: the reader's side of
  \<open>join newline\<close>.
\<close>

fun split_lines :: "string \<Rightarrow> string list" where
  "split_lines [] = [[]]"
| "split_lines (c # cs) =
     (if c = CHR 0x0A then [] # split_lines cs
      else (c # hd (split_lines cs)) # tl (split_lines cs))"

section \<open>The availability engine as the specification words it\<close>

text \<open>
  The definitions of this section follow the specification, not the source: an interval is
  a pair \<open>(start, end)\<close>, \<open>spec_overlaps\<close> is the contract of the interval model,
  \<open>spec_generate\<close> the slot generator and \<open>spec_available_slots\<close> the availability
  engine. The generator is defined for a positive step.
\<close>

type_synonym interval = "datetime \<times> datetime"

definition spec_overlaps :: "interval \<Rightarrow> interval \<Rightarrow> bool" where
  "spec_overlaps a b = (fst a < snd b \<and> fst b < snd a)"

function spec_generate :: "datetime \<Rightarrow> datetime \<Rightarrow> int \<Rightarrow> int \<Rightarrow> interval list" where
  "spec_generate current close duration step =
     (if 0 < step \<and> current + duration \<le> close
      then (current, current + duration) # spec_generate (current + step) close duration step
      else [])"
  by pat_completeness auto
termination
  by (relation "measure (\<lambda>(current, close, duration, step). nat (close - duration - current + 1))")
     auto

definition spec_available_slots ::
  "datetime \<Rightarrow> datetime \<Rightarrow> int \<Rightarrow> int \<Rightarrow> interval set \<Rightarrow> interval list" where
  "spec_available_slots open_time close duration step busy =
     filter (\<lambda>s. \<forall>b\<in>busy. \<not> spec_overlaps s b) (spec_generate open_time close duration step)"

text \<open>
  The number of candidates in closed form: none when the first one ends after closing,
  else one for each whole step that fits before the last possible start.
\<close>

definition candidate_count :: "datetime \<Rightarrow> datetime \<Rightarrow> int \<Rightarrow> int \<Rightarrow> nat" where
  "candidate_count open_time close duration step =
     (if open_time + duration \<le> close
      then nat ((close - duration - open_time) div step) + 1
      else 0)"

definition candidate :: "datetime \<Rightarrow> int \<Rightarrow> int \<Rightarrow> nat \<Rightarrow> interval" where
  "candidate open_time duration step k =
     (open_time + int k * step, open_time + int k * step + duration)"

text \<open>
  The busy interval that the source reads from an event: both ends parsed by
  \<open>event_datetime\<close>. An event with an end that does not parse has none.
\<close>

definition event_interval :: "pylib \<Rightarrow> event \<Rightarrow> interval option" where
  "event_interval lib ev =
     (case event_datetime lib (ev_start ev) of
        Inl e \<Rightarrow> None
      | Inr event_start \<Rightarrow>
          (case event_datetime lib (ev_end ev) of
             Inl e \<Rightarrow> None
           | Inr event_end \<Rightarrow> Some (event_start, event_end)))"

definition busy_intervals :: "pylib \<Rightarrow> event list \<Rightarrow> interval list" where
  "busy_intervals lib events = List.map_filter (event_interval lib) events"

text \<open>
  The datetime arithmetic of the loop stays in range: nothing to ask of a duration that
  is not negative; a negative one must leave the first slot's end and the last
  \<open>current_time\<close> inside the years 1 to 9999.
\<close>

definition slots_in_range :: "datetime \<Rightarrow> int \<Rightarrow> bool" where
  "slots_in_range target_date duration_minutes =
     (0 \<le> duration_minutes \<or>
      (0 \<le> replace_time target_date 9 0 0 0 + duration_minutes * us_per_minute \<and>
       replace_time target_date 17 0 0 0 - duration_minutes * us_per_minute + 30 * us_per_minute
         < datetime_end))"

section \<open>A library and a backend for the examples\<close>

text \<open>
  The examples are set on 2024-01-10, whose ordinal is 738895: midnight is
  \<open>738894 * 86400000000\<close> microseconds. \<open>example_lib\<close> answers as Python does on the
  texts and the whole minutes of that day that the examples use, and raises elsewhere.
  \<open>example_service\<close> lists every stored event, with the \<open>Z\<close> of a calendar kept in UTC,
  and accepts every insertion, as a calendar does that has no rule against overlapping
  or past events.
\<close>

definition example_day :: datetime where
  "example_day = 63840441600000000"

definition example_lib :: pylib where
  "example_lib =
     \<lparr>strptime = (\<lambda>s fmt.
        if fmt = ''%Y-%m-%d'' \<and> s = ''2024-01-10'' then Inr example_day
        else if fmt = ''%Y-%m-%d %H:%M'' \<and> s = ''2024-01-10 10:00''
        then Inr (example_day + 10 * us_per_hour)
        else Inl (Exception (''time data '' @ quote @ s @ quote @ '' does not match format '' @
                             quote @ fmt @ quote))),
      fromisoformat = (\<lambda>s.
        if s = ''2024-01-10T10:00:00'' then Inr (naive_datetime (example_day + 10 * us_per_hour))
        else if s = ''2024-01-10T10:00:00+00:00''
        then Inr \<lparr>naive = example_day + 10 * us_per_hour, tzinfo = Some 0\<rparr>
        else if s = ''2024-01-10T11:00:00+00:00''
        then Inr \<lparr>naive = example_day + 11 * us_per_hour, tzinfo = Some 0\<rparr>
        else Inl (Exception (''Invalid isoformat string: '' @ quote @ s @ quote))),
      isoformat = (\<lambda>a.
        ''2024-01-10T'' @ two_digits (naive a mod us_per_day div us_per_hour) @ '':'' @
        two_digits (naive a mod us_per_hour div us_per_minute) @ '':00'' @
        (case tzinfo a of None \<Rightarrow> [] | Some z \<Rightarrow> ''+00:00'')),
      lib_strftime = (\<lambda>t fmt. ''2024-01-10''),
      int_of_str = (\<lambda>s.
        if s = ''60'' then Inr 60
        else if s = ''-30'' then Inr (- 30)
        else Inl (Exception (''invalid literal for int() with base 10: '' @ quote @ s @ quote))),
      overflow = (\<lambda>t n. Exception ''date value out of range''),
      attribute_error = Exception (quote @ ''NoneType'' @ quote @ '' object has no attribute '' @
                                   quote @ ''replace'' @ quote)\<rparr>"

definition listed :: "created \<times> event_body \<Rightarrow> event" where
  "listed stored =
     \<lparr>ev_summary = Some (body_summary (snd stored)),
      ev_description = Some (body_description (snd stored)),
      ev_start = \<lparr>et_dateTime = Some (bt_dateTime (body_start (snd stored)) @ ''Z''), et_date = None\<rparr>,
      ev_end = \<lparr>et_dateTime = Some (bt_dateTime (body_end (snd stored)) @ ''Z''), et_date = None\<rparr>\<rparr>"

definition example_service :: service where
  "example_service =
     \<lparr>list_response = (\<lambda>b time_min time_max. Inr (map listed (stored_events b))),
      insert_response = (\<lambda>b body. Inr \<lparr>created_id = ''event'' @ two_digits (int (length b)),
                                          htmlLink = None\<rparr>)\<rparr>"

text \<open>A calendar that holds one event, from 10:00 to 11:00.\<close>

definition example_busy :: backend where
  "example_busy =
     [(Inr \<lparr>created_id = ''event00'', htmlLink = None\<rparr>,
       \<lparr>body_summary = ''Review'', body_description = [],
        body_start = \<lparr>bt_dateTime = ''2024-01-10T10:00:00'', bt_timeZone = ''UTC''\<rparr>,
        body_end = \<lparr>bt_dateTime = ''2024-01-10T11:00:00'', bt_timeZone = ''UTC''\<rparr>\<rparr>)]"

text \<open>
  A calendar shared for reading only: it lists the same event and refuses every
  insertion.
\<close>

definition example_readonly_service :: service where
  "example_readonly_service =
     \<lparr>list_response = (\<lambda>b time_min time_max. Inr (map listed (stored_events example_busy))),
      insert_response = (\<lambda>b body. Inl (Exception ''HttpError 403: Forbidden''))\<rparr>"

text \<open>A reading of the clock after the example day: 2026-11-03T00:00:00, ordinal 739923.\<close>

definition example_now :: datetime where
  "example_now = 63929260800000000"

section \<open>Dates and formatting\<close>

lemma replace_time_range:
  assumes "in_range t"
  shows "0 \<le> replace_time t 9 0 0 0" and "replace_time t 17 0 0 0 + 30 * us_per_minute < datetime_end"
    and "replace_time t 9 0 0 0 \<le> replace_time t 17 0 0 0"
proof -
  have a: "0 \<le> t" and b: "t < 3652059 * 86400000000"
    using assms by (simp_all add: in_range_def datetime_end_def)
  have c: "t - t mod 86400000000 = (t div 86400000000) * 86400000000"
    by (simp add: minus_mod_eq_div_mult)
  have d: "0 \<le> t div 86400000000" using a by (simp add: pos_imp_zdiv_nonneg_iff)
  have e: "t div 86400000000 < 3652059" using b by (simp add: div_less_iff_less_mult)
  show "0 \<le> replace_time t 9 0 0 0" using c d
    by (simp add: replace_time_def us_per_day_def us_per_hour_def)
  show "replace_time t 17 0 0 0 + 30 * us_per_minute < datetime_end" using c e
    by (simp add: replace_time_def us_per_day_def us_per_hour_def us_per_minute_def datetime_end_def)
  show "replace_time t 9 0 0 0 \<le> replace_time t 17 0 0 0"
    by (simp add: replace_time_def us_per_hour_def)
qed

lemma strftime_same_day:
  assumes "0 \<le> x" "x < us_per_day"
  shows "strftime lib (t - t mod us_per_day + x) ''%H:%M'' =
         two_digits (x div us_per_hour) @ '':'' @ two_digits (x mod us_per_hour div us_per_minute)"
proof -
  have a: "(t - t mod us_per_day + x) mod us_per_day = x"
    using assms by (simp add: mod_diff_left_eq[symmetric] mod_add_left_eq[symmetric])
  have "us_per_day = 24 * us_per_hour" by (simp add: us_per_day_def us_per_hour_def)
  then have "(t - t mod us_per_day + x) mod us_per_hour = x mod us_per_hour"
    by (metis a mod_mod_cancel dvd_triv_right)
  with a show ?thesis by (simp add: strftime_def)
qed

lemma strftime_from_nine:
  assumes "0 \<le> x" "x < 54000000000"
  shows "strftime lib (x + replace_time t 9 0 0 0) ''%H:%M'' =
         two_digits ((32400000000 + x) div 3600000000) @ '':'' @
         two_digits ((32400000000 + x) mod 3600000000 div 60000000)"
proof -
  have eq: "x + replace_time t 9 0 0 0 = t - t mod us_per_day + (32400000000 + x)"
    by (simp add: replace_time_def us_per_hour_def)
  have "0 \<le> 32400000000 + x" "32400000000 + x < us_per_day"
    using assms by (simp_all add: us_per_day_def)
  then have "strftime lib (t - t mod us_per_day + (32400000000 + x)) ''%H:%M'' =
      two_digits ((32400000000 + x) div us_per_hour) @ '':'' @
      two_digits ((32400000000 + x) mod us_per_hour div us_per_minute)"
    by (rule strftime_same_day)
  then show ?thesis
    unfolding eq by (simp only: us_per_hour_def us_per_minute_def)
qed

lemma strftime_from_nine_right:
  assumes "0 \<le> x" "x < 54000000000"
  shows "strftime lib (replace_time t 9 0 0 0 + x) ''%H:%M'' =
         two_digits ((32400000000 + x) div 3600000000) @ '':'' @
         two_digits ((32400000000 + x) mod 3600000000 div 60000000)"
  using strftime_from_nine[OF assms, of lib t] by (simp only: add.commute)

lemma strftime_nine:
  "strftime lib (replace_time t 9 0 0 0) ''%H:%M'' = ''09:00''"
  using strftime_from_nine[of 0 lib t] by (simp add: two_digits_def digit_def)

section \<open>The overlap test\<close>

text \<open>
  C4. The test of line 70 holds exactly when each interval starts before the other ends;
  it is symmetric in the two intervals; and a slot that ends where the event starts, or
  starts where the event ends, is not in conflict with it.
\<close>

theorem conflicts_half_open:
  "(conflicts a_start a_end b_start b_end = (a_start < b_end \<and> b_start < a_end)) \<and>
   (conflicts a_start a_end b_start b_end = conflicts b_start b_end a_start a_end) \<and>
   \<not> conflicts a_start t t b_end \<and>
   \<not> conflicts t a_end b_start t"
  by (auto simp: conflicts_def)

section \<open>The availability engine\<close>

lemma is_available_parsed:
  assumes "\<forall>ev\<in>set events. event_interval lib ev \<noteq> None"
  shows "is_available lib events c e =
         Inr (\<forall>b\<in>set (busy_intervals lib events). \<not> spec_overlaps (c, e) b)"
  using assms
proof (induction events)
  case Nil
  then show ?case by (simp add: busy_intervals_def map_filter_simps)
next
  case (Cons ev events)
  then show ?case
    by (auto simp: busy_intervals_def map_filter_simps event_interval_def conflicts_def spec_overlaps_def
        split: sum.splits)
qed

lemma slots_loop_spec:
  assumes "\<forall>ev\<in>set events. event_interval lib ev \<noteq> None"
    and "0 \<le> current_time"
    and "in_range (current_time + duration_minutes * us_per_minute)"
    and "end_time + 30 * us_per_minute < datetime_end"
    and "end_time - duration_minutes * us_per_minute + 30 * us_per_minute < datetime_end"
  shows "slots_loop lib events duration_minutes end_time current_time acc =
         Inr (acc @ map (slot_dict lib)
           (spec_available_slots current_time end_time (duration_minutes * us_per_minute)
              (30 * us_per_minute) (set (busy_intervals lib events))))"
  using assms
proof (induction lib events duration_minutes end_time current_time acc rule: slots_loop.induct)
  case (1 lib events duration_minutes end_time current_time available_slots)
  let ?D = "duration_minutes * us_per_minute"
  let ?slot_end = "current_time + ?D"
  have pm: "plus_minutes lib current_time duration_minutes = Inr ?slot_end"
    using "1.prems"(3) by (simp add: plus_minutes_def)
  have step: "(0::int) < 30 * us_per_minute" by (simp add: us_per_minute_def)
  show ?case
  proof (cases "?slot_end \<le> end_time")
    case False
    then show ?thesis
      using pm by (simp add: spec_available_slots_def)
  next
    case True
    let ?next = "current_time + 30 * us_per_minute"
    have nr: "in_range ?next"
      using "1.prems"(2,5) True step by (simp add: in_range_def)
    have pn: "plus_minutes lib current_time 30 = Inr ?next"
      using nr by (simp add: plus_minutes_def)
    have av: "is_available lib events current_time ?slot_end =
        Inr (\<forall>b\<in>set (busy_intervals lib events). \<not> spec_overlaps (current_time, ?slot_end) b)"
      using "1.prems"(1) by (rule is_available_parsed)
    have nr2: "in_range (?next + ?D)"
      using "1.prems"(3,4) True step by (simp add: in_range_def)
    have n0: "0 \<le> ?next" using "1.prems"(2) step by simp
    note IH = "1.IH"[OF pm True av pn "1.prems"(1) n0 nr2 "1.prems"(4) "1.prems"(5)]
    have gen: "spec_generate current_time end_time ?D (30 * us_per_minute) =
        (current_time, ?slot_end) # spec_generate ?next end_time ?D (30 * us_per_minute)"
      using True step by (subst spec_generate.simps) simp
    show ?thesis
      by (subst slots_loop.simps) (simp add: pm True av pn IH spec_available_slots_def gen del: spec_generate.simps slots_loop.simps)
  qed
qed


lemma spec_generate_lower:
  "iv \<in> set (spec_generate current close duration step) \<Longrightarrow> current \<le> fst iv"
proof (induction current close duration step rule: spec_generate.induct)
  case (1 current close duration step)
  show ?case
  proof (cases "0 < step \<and> current + duration \<le> close")
    case True
    then have "spec_generate current close duration step =
        (current, current + duration) # spec_generate (current + step) close duration step"
      by (subst spec_generate.simps) simp
    with "1.prems" have "iv = (current, current + duration) \<or>
        iv \<in> set (spec_generate (current + step) close duration step)"
      by (simp del: spec_generate.simps)
    then show ?thesis
    proof
      assume "iv = (current, current + duration)"
      then show ?thesis by simp
    next
      assume "iv \<in> set (spec_generate (current + step) close duration step)"
      then have "current + step \<le> fst iv" using True by (rule "1.IH"[rotated])
      then show ?thesis using True by simp
    qed
  next
    case False
    then have "spec_generate current close duration step = []"
      by (subst spec_generate.simps) auto
    with "1.prems" show ?thesis by (simp del: spec_generate.simps)
  qed
qed

lemma spec_generate_ascending:
  "sorted_wrt (<) (map fst (spec_generate current close duration step))"
proof (induction current close duration step rule: spec_generate.induct)
  case (1 current close duration step)
  show ?case
  proof (cases "0 < step \<and> current + duration \<le> close")
    case True
    then have eq: "spec_generate current close duration step =
        (current, current + duration) # spec_generate (current + step) close duration step"
      by (subst spec_generate.simps) simp
    have "\<forall>iv\<in>set (spec_generate (current + step) close duration step). current < fst iv"
    proof
      fix iv assume "iv \<in> set (spec_generate (current + step) close duration step)"
      then have "current + step \<le> fst iv" by (rule spec_generate_lower)
      then show "current < fst iv" using True by simp
    qed
    then show ?thesis using "1.IH"[OF True] by (simp add: eq del: spec_generate.simps)
  next
    case False
    then have "spec_generate current close duration step = []"
      by (subst spec_generate.simps) auto
    then show ?thesis by (simp del: spec_generate.simps)
  qed
qed

lemma spec_available_slots_ascending:
  "sorted_wrt (<) (map fst (spec_available_slots open_time close duration step busy))"
proof -
  have "sorted_wrt (\<lambda>a b. fst a < fst b) (spec_generate open_time close duration step)"
    using spec_generate_ascending[of open_time close duration step] by (simp add: sorted_wrt_map)
  then have "sorted_wrt (\<lambda>a b. fst a < fst b) (spec_available_slots open_time close duration step busy)"
    unfolding spec_available_slots_def by (rule sorted_wrt_filter)
  then show ?thesis by (simp add: sorted_wrt_map)
qed

lemma get_available_slots_refines:
  assumes sp: "strptime lib date ''%Y-%m-%d'' = Inr target_date"
    and rg: "in_range target_date"
    and ls: "list_response svc b (isoformat lib (naive_datetime (replace_time target_date 9 0 0 0)) @ ''Z'')
               (isoformat lib (naive_datetime (replace_time target_date 17 0 0 0)) @ ''Z'') = Inr events"
    and pr: "\<forall>ev\<in>set events. event_interval lib ev \<noteq> None"
    and sr: "slots_in_range target_date duration_minutes"
  shows "get_available_slots lib svc b date duration_minutes =
         map (slot_dict lib)
           (spec_available_slots (replace_time target_date 9 0 0 0) (replace_time target_date 17 0 0 0)
              (duration_minutes * us_per_minute) (30 * us_per_minute)
              (set (busy_intervals lib events)))"
proof -
  let ?start = "replace_time target_date 9 0 0 0"
  let ?end = "replace_time target_date 17 0 0 0"
  let ?D = "duration_minutes * us_per_minute"
  note r = replace_time_range[OF rg]
  have de: "?end < datetime_end" using r(2) by (simp add: us_per_minute_def)
  have body: "get_available_slots lib svc b date duration_minutes =
      (case slots_loop lib events duration_minutes ?end ?start [] of Inl e \<Rightarrow> [] | Inr s \<Rightarrow> s)"
    by (simp add: get_available_slots_def get_available_slots_try_def sp ls del: slots_loop.simps)
  show ?thesis
  proof (cases "in_range (?start + ?D)")
    case True
    have "?end - ?D + 30 * us_per_minute < datetime_end"
    proof (cases "0 \<le> duration_minutes")
      case True
      then have "0 \<le> ?D" by (simp add: us_per_minute_def)
      then show ?thesis using r(2) by simp
    next
      case False
      then show ?thesis using sr by (simp add: slots_in_range_def)
    qed
    then show ?thesis
      using slots_loop_spec[OF pr r(1) True r(2), of "[]"] by (simp add: body del: slots_loop.simps)
  next
    case False
    have nonneg: "0 \<le> duration_minutes"
    proof (rule ccontr)
      assume n: "\<not> 0 \<le> duration_minutes"
      then have "0 \<le> ?start + ?D" using sr by (simp add: slots_in_range_def)
      moreover have "?D < 0" using n by (simp add: us_per_minute_def)
      ultimately have "in_range (?start + ?D)" using r(3) de by (simp add: in_range_def)
      with False show False by simp
    qed
    then have "0 \<le> ?D" by (simp add: us_per_minute_def)
    then have big: "datetime_end \<le> ?start + ?D" using False r(1) by (simp add: in_range_def)
    have "slots_loop lib events duration_minutes ?end ?start [] = Inl (overflow lib ?start duration_minutes)"
      using False by (subst slots_loop.simps) (simp add: plus_minutes_def del: slots_loop.simps)
    moreover have "spec_generate ?start ?end ?D (30 * us_per_minute) = []"
      using big de by (subst spec_generate.simps) simp
    ultimately show ?thesis
      by (simp add: body spec_available_slots_def del: slots_loop.simps spec_generate.simps)
  qed
qed


lemma scenario_slots:
  "spec_available_slots (replace_time t 9 0 0 0) (replace_time t 17 0 0 0)
     (60 * us_per_minute) (30 * us_per_minute)
     {(replace_time t 10 0 0 0, replace_time t 11 0 0 0)} =
   map (\<lambda>k. (replace_time t 9 0 0 0 + k * (30 * us_per_minute),
              replace_time t 9 0 0 0 + k * (30 * us_per_minute) + 60 * us_per_minute))
     [0, 4, 5, 6, 7, 8, 9, 10, 11, 12, 13, 14]"
  by (simp add: spec_available_slots_def spec_overlaps_def replace_time_def us_per_minute_def us_per_hour_def)


lemma scenario_lines:
  "map slot_line (map (slot_dict lib)
     (map (\<lambda>k. (replace_time t 9 0 0 0 + k * (30 * us_per_minute),
              replace_time t 9 0 0 0 + k * (30 * us_per_minute) + 60 * us_per_minute))
     [0, 4, 5, 6, 7, 8, 9, 10, 11, 12, 13, 14])) =
   [''09:00 - 10:00'', ''11:00 - 12:00'', ''11:30 - 12:30'', ''12:00 - 13:00'',
    ''12:30 - 13:30'', ''13:00 - 14:00'', ''13:30 - 14:30'', ''14:00 - 15:00'',
    ''14:30 - 15:30'', ''15:00 - 16:00'', ''15:30 - 16:30'', ''16:00 - 17:00'']"
  by (simp add: slot_line_def slot_dict_def us_per_minute_def strftime_from_nine strftime_from_nine_right strftime_nine
      two_digits_def digit_def)

text \<open>
  C1. When the date parses, the backend answers the query and every listed event parses,
  \<open>get_available_slots\<close> returns the candidates of the slot generator, for the window from
  09:00 to 17:00 of that day and a step of 30 minutes, that overlap no busy interval, in
  the generator's order, each as its dictionary; their starts ascend strictly. With a
  duration of 60 minutes and the one busy interval from 10:00 to 11:00 the slots are
  09:00 to 10:00 and then every half hour from 11:00 to 12:00 up to 16:00 to 17:00.
\<close>

theorem get_available_slots_spec:
  assumes "strptime lib date ''%Y-%m-%d'' = Inr target_date"
    and "in_range target_date"
    and "list_response svc b (isoformat lib (naive_datetime (replace_time target_date 9 0 0 0)) @ ''Z'')
           (isoformat lib (naive_datetime (replace_time target_date 17 0 0 0)) @ ''Z'') = Inr events"
    and "\<forall>ev\<in>set events. event_interval lib ev \<noteq> None"
    and "slots_in_range target_date duration_minutes"
  shows "get_available_slots lib svc b date duration_minutes =
           map (slot_dict lib)
             (spec_available_slots (replace_time target_date 9 0 0 0) (replace_time target_date 17 0 0 0)
                (duration_minutes * us_per_minute) (30 * us_per_minute)
                (set (busy_intervals lib events))) \<and>
         sorted_wrt (<) (map fst
             (spec_available_slots (replace_time target_date 9 0 0 0) (replace_time target_date 17 0 0 0)
                (duration_minutes * us_per_minute) (30 * us_per_minute)
                (set (busy_intervals lib events)))) \<and>
         (duration_minutes = 60 \<and>
          busy_intervals lib events =
            [(replace_time target_date 10 0 0 0, replace_time target_date 11 0 0 0)] \<longrightarrow>
          map slot_line (get_available_slots lib svc b date duration_minutes) =
            [''09:00 - 10:00'', ''11:00 - 12:00'', ''11:30 - 12:30'', ''12:00 - 13:00'',
             ''12:30 - 13:30'', ''13:00 - 14:00'', ''13:30 - 14:30'', ''14:00 - 15:00'',
             ''14:30 - 15:30'', ''15:00 - 16:00'', ''15:30 - 16:30'', ''16:00 - 17:00''])"
proof -
  note eq = get_available_slots_refines[OF assms]
  have "map slot_line (get_available_slots lib svc b date duration_minutes) =
            [''09:00 - 10:00'', ''11:00 - 12:00'', ''11:30 - 12:30'', ''12:00 - 13:00'',
             ''12:30 - 13:30'', ''13:00 - 14:00'', ''13:30 - 14:30'', ''14:00 - 15:00'',
             ''14:30 - 15:30'', ''15:00 - 16:00'', ''15:30 - 16:30'', ''16:00 - 17:00'']"
    if "duration_minutes = 60"
      and "busy_intervals lib events =
        [(replace_time target_date 10 0 0 0, replace_time target_date 11 0 0 0)]"
  proof -
    have "get_available_slots lib svc b date duration_minutes =
        map (slot_dict lib)
          (spec_available_slots (replace_time target_date 9 0 0 0) (replace_time target_date 17 0 0 0)
             (60 * us_per_minute) (30 * us_per_minute)
             {(replace_time target_date 10 0 0 0, replace_time target_date 11 0 0 0)})"
      using eq that by simp
    then show ?thesis
      by (simp only: scenario_slots scenario_lines)
  qed
  then show ?thesis
    using eq spec_available_slots_ascending by blast
qed

theorem get_available_slots_spec_witness:
  "strptime example_lib ''2024-01-10'' ''%Y-%m-%d'' = Inr example_day \<and>
   in_range example_day \<and>
   slots_in_range example_day 60 \<and>
   busy_intervals example_lib (map listed (stored_events example_busy)) =
     [(example_day + 10 * us_per_hour, example_day + 11 * us_per_hour)] \<and>
   map slot_line (get_available_slots example_lib example_service example_busy ''2024-01-10'' 60) =
     [''09:00 - 10:00'', ''11:00 - 12:00'', ''11:30 - 12:30'', ''12:00 - 13:00'',
      ''12:30 - 13:30'', ''13:00 - 14:00'', ''13:30 - 14:30'', ''14:00 - 15:00'',
      ''14:30 - 15:30'', ''15:00 - 16:00'', ''15:30 - 16:30'', ''16:00 - 17:00'']"
proof -
  have h1: "strptime example_lib ''2024-01-10'' ''%Y-%m-%d'' = Inr example_day"
    by (simp add: example_lib_def)
  have h2: "in_range example_day"
    by (simp add: in_range_def example_day_def datetime_end_def)
  have h3: "list_response example_service example_busy
      (isoformat example_lib (naive_datetime (replace_time example_day 9 0 0 0)) @ ''Z'')
      (isoformat example_lib (naive_datetime (replace_time example_day 17 0 0 0)) @ ''Z'') =
      Inr (map listed (stored_events example_busy))"
    by (simp add: example_service_def)
  have iv: "event_interval example_lib (listed (stored_events example_busy ! 0)) =
      Some (example_day + 10 * us_per_hour, example_day + 11 * us_per_hour)"
    by (simp add: event_interval_def event_datetime_def listed_def example_busy_def replace_Z_def
        example_lib_def naive_datetime_def stored_events_def)
  have h4: "\<forall>ev\<in>set (map listed (stored_events example_busy)). event_interval example_lib ev \<noteq> None"
    using iv by (simp add: example_busy_def stored_events_def)
  have h5: "slots_in_range example_day 60"
    by (simp add: slots_in_range_def)
  have bz: "busy_intervals example_lib (map listed (stored_events example_busy)) =
      [(example_day + 10 * us_per_hour, example_day + 11 * us_per_hour)]"
    using iv by (simp add: busy_intervals_def example_busy_def map_filter_simps stored_events_def)
  have rt: "replace_time example_day 10 0 0 0 = example_day + 10 * us_per_hour"
    "replace_time example_day 11 0 0 0 = example_day + 11 * us_per_hour"
    by (simp_all add: replace_time_def example_day_def us_per_day_def)
  have bz': "busy_intervals example_lib (map listed (stored_events example_busy)) =
      [(replace_time example_day 10 0 0 0, replace_time example_day 11 0 0 0)]"
    by (simp only: bz rt)
  have "map slot_line (get_available_slots example_lib example_service example_busy ''2024-01-10'' 60) =
     [''09:00 - 10:00'', ''11:00 - 12:00'', ''11:30 - 12:30'', ''12:00 - 13:00'',
      ''12:30 - 13:30'', ''13:00 - 14:00'', ''13:30 - 14:30'', ''14:00 - 15:00'',
      ''14:30 - 15:30'', ''15:00 - 16:00'', ''15:30 - 16:30'', ''16:00 - 17:00'']"
    using get_available_slots_spec[OF h1 h2 h3 h4 h5] bz' by blast
  then show ?thesis
    using h1 h2 h5 bz by blast
qed

lemma candidate_count_step:
  assumes "0 < step" "c + d \<le> cl"
  shows "candidate_count c cl d step = Suc (candidate_count (c + step) cl d step)"
proof (cases "c + step + d \<le> cl")
  case True
  have ne: "step \<noteq> 0" using assms(1) by simp
  have e: "(cl - d - c) div step = (cl - d - (c + step)) div step + 1"
  proof -
    have "cl - d - c = cl - d - (c + step) + step" by simp
    then show ?thesis
      using div_add_self2[OF ne, of "cl - d - (c + step)"] by (simp only:)
  qed
  have "0 \<le> (cl - d - (c + step)) div step"
    using True assms(1) by (simp add: pos_imp_zdiv_nonneg_iff)
  then show ?thesis
    using True assms(2) e by (simp add: candidate_count_def nat_add_distrib)
next
  case False
  then have "(cl - d - c) div step = 0"
    using assms by (simp add: div_pos_pos_trivial)
  then show ?thesis
    using False assms(2) by (simp add: candidate_count_def)
qed

lemma spec_generate_closed_form:
  "0 < step \<Longrightarrow>
   spec_generate c cl d step = map (candidate c d step) [0..<candidate_count c cl d step]"
proof (induction c cl d step rule: spec_generate.induct)
  case (1 current close duration step)
  show ?case
  proof (cases "current + duration \<le> close")
    case True
    have cnt: "candidate_count current close duration step =
        Suc (candidate_count (current + step) close duration step)"
      using "1.prems" True by (rule candidate_count_step)
    have IH: "spec_generate (current + step) close duration step =
        map (candidate (current + step) duration step)
          [0..<candidate_count (current + step) close duration step]"
      using "1.IH" "1.prems" True by simp
    have sh: "candidate (current + step) duration step k = candidate current duration step (Suc k)" for k
      by (simp add: candidate_def algebra_simps)
    have "spec_generate current close duration step =
        (current, current + duration) # spec_generate (current + step) close duration step"
      using True "1.prems" by (subst spec_generate.simps) simp
    also have "\<dots> = candidate current duration step 0 #
        map (candidate current duration step \<circ> Suc)
          [0..<candidate_count (current + step) close duration step]"
      by (simp add: IH sh comp_def del: spec_generate.simps) (simp add: candidate_def)
    also have "\<dots> = map (candidate current duration step)
        [0..<Suc (candidate_count (current + step) close duration step)]"
      by (simp only: map_upt_Suc[symmetric] list.map[symmetric] map_map[symmetric] map_Suc_upt upt_conv_Cons[OF zero_less_Suc])
    finally show ?thesis by (simp only: cnt)
  next
    case False
    then have "spec_generate current close duration step = []"
      by (subst spec_generate.simps) simp
    then show ?thesis using False by (simp add: candidate_count_def del: spec_generate.simps)
  qed
qed

lemma candidate_count_bounds:
  assumes "0 < step"
  shows "\<forall>k<candidate_count c cl d step. snd (candidate c d step k) \<le> cl"
    and "cl < snd (candidate c d step (candidate_count c cl d step))"
proof -
  show "\<forall>k<candidate_count c cl d step. snd (candidate c d step k) \<le> cl"
  proof (intro allI impI)
    fix k assume k: "k < candidate_count c cl d step"
    then have le: "c + d \<le> cl" by (auto simp: candidate_count_def split: if_splits)
    then have "0 \<le> (cl - d - c) div step"
      using assms by (simp add: pos_imp_zdiv_nonneg_iff)
    with k le have "int k \<le> (cl - d - c) div step"
      by (simp add: candidate_count_def)
    then have "int k * step \<le> (cl - d - c) div step * step"
      using assms by (simp add: mult_right_mono)
    also have "\<dots> = cl - d - c - (cl - d - c) mod step"
      by (simp only: minus_mod_eq_div_mult)
    also have "\<dots> \<le> cl - d - c"
      using assms by simp
    finally show "snd (candidate c d step k) \<le> cl" by (simp add: candidate_def)
  qed
  show "cl < snd (candidate c d step (candidate_count c cl d step))"
  proof (cases "c + d \<le> cl")
    case True
    then have nn: "0 \<le> (cl - d - c) div step"
      using assms by (simp add: pos_imp_zdiv_nonneg_iff)
    define z where "z = (cl - d - c) div step"
    have "cl - d - c = z * step + (cl - d - c) mod step"
      unfolding z_def by simp
    moreover have "(cl - d - c) mod step < step" using assms by simp
    ultimately have "cl - d - c < z * step + step" by linarith
    moreover have "(z + 1) * step = z * step + step" by (simp add: algebra_simps)
    ultimately have lt: "cl < c + (z + 1) * step + d" by linarith
    have "int (candidate_count c cl d step) = z + 1"
      using True nn by (simp add: candidate_count_def z_def)
    then show ?thesis using lt by (simp add: candidate_def)
  next
    case False
    then show ?thesis by (simp add: candidate_def candidate_count_def)
  qed
qed


lemma window_length:
  "replace_time t 17 0 0 0 = replace_time t 9 0 0 0 + 480 * us_per_minute"
  by (simp add: replace_time_def us_per_hour_def us_per_minute_def)

text \<open>
  C5. The candidates of \<open>get_available_slots\<close> are, for \<open>k\<close> from 0, the intervals that
  start at 09:00 plus \<open>k\<close> steps of 30 minutes and last exactly the duration; there are
  \<open>candidate_count\<close> of them: each ends at or before 17:00 and the next one would end after
  it. With no busy event all of them are returned, in this order. A duration over the 480
  minutes of the window gives the empty list, and the body of the function returns it
  without raising whenever 09:00 plus the duration is still a datetime.
\<close>

theorem candidate_slots:
  assumes sp: "strptime lib date ''%Y-%m-%d'' = Inr target_date"
    and rg: "in_range target_date"
    and ls: "list_response svc b (isoformat lib (naive_datetime (replace_time target_date 9 0 0 0)) @ ''Z'')
           (isoformat lib (naive_datetime (replace_time target_date 17 0 0 0)) @ ''Z'') = Inr events"
  shows "((\<forall>ev\<in>set events. event_interval lib ev \<noteq> None) \<and> slots_in_range target_date duration_minutes \<longrightarrow>
          get_available_slots lib svc b date duration_minutes =
            map (slot_dict lib)
              (filter (\<lambda>s. \<forall>b\<in>set (busy_intervals lib events). \<not> spec_overlaps s b)
                (map (candidate (replace_time target_date 9 0 0 0)
                        (duration_minutes * us_per_minute) (30 * us_per_minute))
                   [0..<candidate_count (replace_time target_date 9 0 0 0)
                          (replace_time target_date 17 0 0 0)
                          (duration_minutes * us_per_minute) (30 * us_per_minute)]))) \<and>
         (events = [] \<and> slots_in_range target_date duration_minutes \<longrightarrow>
          get_available_slots lib svc b date duration_minutes =
            map (slot_dict lib)
              (map (candidate (replace_time target_date 9 0 0 0)
                      (duration_minutes * us_per_minute) (30 * us_per_minute))
                 [0..<candidate_count (replace_time target_date 9 0 0 0)
                        (replace_time target_date 17 0 0 0)
                        (duration_minutes * us_per_minute) (30 * us_per_minute)])) \<and>
         (\<forall>k. candidate (replace_time target_date 9 0 0 0)
                 (duration_minutes * us_per_minute) (30 * us_per_minute) k =
               (replace_time target_date 9 0 0 0 + int k * (30 * us_per_minute),
                replace_time target_date 9 0 0 0 + int k * (30 * us_per_minute) +
                  duration_minutes * us_per_minute)) \<and>
         (\<forall>k<candidate_count (replace_time target_date 9 0 0 0) (replace_time target_date 17 0 0 0)
                 (duration_minutes * us_per_minute) (30 * us_per_minute).
            snd (candidate (replace_time target_date 9 0 0 0)
                   (duration_minutes * us_per_minute) (30 * us_per_minute) k)
              \<le> replace_time target_date 17 0 0 0) \<and>
         replace_time target_date 17 0 0 0 <
           snd (candidate (replace_time target_date 9 0 0 0)
                  (duration_minutes * us_per_minute) (30 * us_per_minute)
                  (candidate_count (replace_time target_date 9 0 0 0) (replace_time target_date 17 0 0 0)
                     (duration_minutes * us_per_minute) (30 * us_per_minute))) \<and>
         (480 < duration_minutes \<longrightarrow>
            get_available_slots lib svc b date duration_minutes = [] \<and>
            (in_range (replace_time target_date 9 0 0 0 + duration_minutes * us_per_minute) \<longrightarrow>
             get_available_slots_try lib svc b date duration_minutes = Inr []))"
proof -
  let ?S = "replace_time target_date 9 0 0 0"
  let ?E = "replace_time target_date 17 0 0 0"
  let ?D = "duration_minutes * us_per_minute"
  let ?step = "30 * us_per_minute"
  have step: "0 < ?step" by (simp add: us_per_minute_def)
  note closed = spec_generate_closed_form[OF step, of ?S ?E ?D]
  have one: "get_available_slots lib svc b date duration_minutes =
      map (slot_dict lib)
        (filter (\<lambda>s. \<forall>b\<in>set (busy_intervals lib events). \<not> spec_overlaps s b)
          (map (candidate ?S ?D ?step) [0..<candidate_count ?S ?E ?D ?step]))"
    if "\<forall>ev\<in>set events. event_interval lib ev \<noteq> None" "slots_in_range target_date duration_minutes"
    using get_available_slots_refines[OF sp rg ls that]
    by (simp only: spec_available_slots_def closed)
  have two: "get_available_slots lib svc b date duration_minutes =
      map (slot_dict lib) (map (candidate ?S ?D ?step) [0..<candidate_count ?S ?E ?D ?step])"
    if "events = []" "slots_in_range target_date duration_minutes"
  proof -
    have "\<forall>ev\<in>set events. event_interval lib ev \<noteq> None" using that(1) by simp
    from one[OF this that(2)] show ?thesis
      using that(1) by (simp add: busy_intervals_def map_filter_simps)
  qed
  have three: "\<forall>k. candidate ?S ?D ?step k = (?S + int k * ?step, ?S + int k * ?step + ?D)"
    by (simp add: candidate_def)
  note b = candidate_count_bounds[OF step, where c = ?S and cl = ?E and d = ?D]
  have six: "get_available_slots lib svc b date duration_minutes = [] \<and>
      (in_range (?S + ?D) \<longrightarrow> get_available_slots_try lib svc b date duration_minutes = Inr [])"
    if "480 < duration_minutes"
  proof -
    have late: "\<not> ?S + ?D \<le> ?E"
      using that by (simp add: window_length[of target_date] us_per_minute_def)
    have body: "get_available_slots_try lib svc b date duration_minutes =
        slots_loop lib events duration_minutes ?E ?S []"
      by (simp add: get_available_slots_try_def sp ls del: slots_loop.simps)
    have "slots_loop lib events duration_minutes ?E ?S [] =
        (if in_range (?S + ?D) then Inr [] else Inl (overflow lib ?S duration_minutes))"
      using late by (subst slots_loop.simps) (simp add: plus_minutes_def del: slots_loop.simps)
    then show ?thesis
      by (simp add: get_available_slots_def body del: slots_loop.simps)
  qed
  show ?thesis
    apply (intro conjI)
    subgoal using one by blast
    subgoal using two by blast
    subgoal using three by blast
    subgoal using b(1) by blast
    subgoal using b(2) by blast
    subgoal using six by blast
    done
qed


lemma example_day_midnight:
  "replace_time example_day h 0 0 0 = example_day + h * us_per_hour"
  by (simp add: replace_time_def example_day_def us_per_day_def)

theorem candidate_slots_witness:
  "strptime example_lib ''2024-01-10'' ''%Y-%m-%d'' = Inr example_day \<and>
   in_range example_day \<and>
   slots_in_range example_day 60 \<and>
   candidate_count (replace_time example_day 9 0 0 0) (replace_time example_day 17 0 0 0)
     (60 * us_per_minute) (30 * us_per_minute) = 15 \<and>
   map slot_line (get_available_slots example_lib example_service [] ''2024-01-10'' 60) =
     [''09:00 - 10:00'', ''09:30 - 10:30'', ''10:00 - 11:00'', ''10:30 - 11:30'',
      ''11:00 - 12:00'', ''11:30 - 12:30'', ''12:00 - 13:00'', ''12:30 - 13:30'',
      ''13:00 - 14:00'', ''13:30 - 14:30'', ''14:00 - 15:00'', ''14:30 - 15:30'',
      ''15:00 - 16:00'', ''15:30 - 16:30'', ''16:00 - 17:00''] \<and>
   get_available_slots example_lib example_service [] ''2024-01-10'' 481 = [] \<and>
   get_available_slots_try example_lib example_service [] ''2024-01-10'' 481 = Inr []"
proof -
  have h1: "strptime example_lib ''2024-01-10'' ''%Y-%m-%d'' = Inr example_day"
    by (simp add: example_lib_def)
  have h2: "in_range example_day"
    by (simp add: in_range_def example_day_def datetime_end_def)
  have h3: "list_response example_service []
      (isoformat example_lib (naive_datetime (replace_time example_day 9 0 0 0)) @ ''Z'')
      (isoformat example_lib (naive_datetime (replace_time example_day 17 0 0 0)) @ ''Z'') = Inr []"
    by (simp add: example_service_def stored_events_def)
  have h5: "slots_in_range example_day 60"
    by (simp add: slots_in_range_def)
  have cnt: "candidate_count (replace_time example_day 9 0 0 0) (replace_time example_day 17 0 0 0)
     (60 * us_per_minute) (30 * us_per_minute) = 15"
    by (simp add: candidate_count_def example_day_midnight us_per_hour_def us_per_minute_def)
  have upt: "[0..<15] = [0, 1, 2, 3, 4, 5, 6, 7, 8, 9, 10, 11, 12, 13, 14::nat]"
    by code_simp
  have "get_available_slots example_lib example_service [] ''2024-01-10'' 60 =
      map (slot_dict example_lib)
        (map (candidate (replace_time example_day 9 0 0 0) (60 * us_per_minute) (30 * us_per_minute))
           [0, 1, 2, 3, 4, 5, 6, 7, 8, 9, 10, 11, 12, 13, 14])"
    using candidate_slots[OF h1 h2 h3, of 60] h5 by (simp only: cnt upt)
  then have lines: "map slot_line (get_available_slots example_lib example_service [] ''2024-01-10'' 60) =
     [''09:00 - 10:00'', ''09:30 - 10:30'', ''10:00 - 11:00'', ''10:30 - 11:30'',
      ''11:00 - 12:00'', ''11:30 - 12:30'', ''12:00 - 13:00'', ''12:30 - 13:30'',
      ''13:00 - 14:00'', ''13:30 - 14:30'', ''14:00 - 15:00'', ''14:30 - 15:30'',
      ''15:00 - 16:00'', ''15:30 - 16:30'', ''16:00 - 17:00'']"
    by (simp add: candidate_def slot_line_def slot_dict_def us_per_minute_def strftime_from_nine
        strftime_from_nine_right strftime_nine two_digits_def digit_def)
  have r: "in_range (replace_time example_day 9 0 0 0 + 481 * us_per_minute)"
    unfolding example_day_midnight
    by (simp add: in_range_def example_day_def us_per_hour_def us_per_minute_def datetime_end_def)
  have "get_available_slots example_lib example_service [] ''2024-01-10'' 481 = [] \<and>
      get_available_slots_try example_lib example_service [] ''2024-01-10'' 481 = Inr []"
    using candidate_slots[OF h1 h2 h3, of 481] r by simp
  then show ?thesis
    using h1 h2 h5 cnt lines by blast
qed

lemma is_available_True_parsed:
  "is_available lib events c e = Inr True \<Longrightarrow> \<forall>ev\<in>set events. event_interval lib ev \<noteq> None"
  by (induction events) (auto simp: event_interval_def split: sum.splits if_splits)

lemma set_busy_intervals:
  "set (busy_intervals lib events) = {iv. \<exists>ev\<in>set events. event_interval lib ev = Some iv}"
  by (induction events) (auto simp: busy_intervals_def map_filter_simps split: option.splits)

lemma slots_loop_grows:
  "slots_loop lib events d end_time c acc = Inr r \<Longrightarrow>
   length acc \<le> length r \<and>
   (length acc < length r \<longrightarrow> (\<forall>ev\<in>set events. event_interval lib ev \<noteq> None))"
proof (induction lib events d end_time c acc rule: slots_loop.induct)
  case (1 lib events d end_time c acc)
  from "1.prems" obtain slot_end where pm: "plus_minutes lib c d = Inr slot_end"
    by (subst (asm) slots_loop.simps) (auto split: sum.splits simp del: slots_loop.simps)
  show ?case
  proof (cases "slot_end \<le> end_time")
    case False
    with "1.prems" pm have "r = acc"
      by (subst (asm) slots_loop.simps) (simp del: slots_loop.simps)
    then show ?thesis by simp
  next
    case True
    from "1.prems" pm True obtain ok next_time where
      av: "is_available lib events c slot_end = Inr ok" and
      pn: "plus_minutes lib c 30 = Inr next_time" and
      rec: "slots_loop lib events d end_time next_time
              (if ok then acc @ [slot_dict lib (c, slot_end)] else acc) = Inr r"
      by (subst (asm) slots_loop.simps) (auto split: sum.splits simp del: slots_loop.simps)
    note IH = "1.IH"[OF pm True av pn rec]
    show ?thesis
    proof (cases ok)
      case True
      then have "\<forall>ev\<in>set events. event_interval lib ev \<noteq> None"
        using av by (simp add: is_available_True_parsed)
      then show ?thesis using IH True by simp
    next
      case False
      then show ?thesis using IH by simp
    qed
  qed
qed

lemma slots_loop_mono:
  "slots_loop lib events' d end_time c acc' = Inr r' \<Longrightarrow>
   \<forall>ev\<in>set events'. event_interval lib ev \<noteq> None \<Longrightarrow>
   set events \<subseteq> set events' \<Longrightarrow>
   \<exists>r. slots_loop lib events d end_time c acc = Inr r \<and>
       length r' + length acc \<le> length r + length acc'"
proof (induction lib events' d end_time c acc' arbitrary: acc rule: slots_loop.induct)
  case (1 lib events' d end_time c acc')
  have parsed: "\<forall>ev\<in>set events. event_interval lib ev \<noteq> None"
    using "1.prems"(2,3) by blast
  from "1.prems"(1) obtain slot_end where pm: "plus_minutes lib c d = Inr slot_end"
    by (subst (asm) slots_loop.simps) (auto split: sum.splits simp del: slots_loop.simps)
  show ?case
  proof (cases "slot_end \<le> end_time")
    case False
    with "1.prems"(1) pm have "r' = acc'"
      by (subst (asm) slots_loop.simps) (simp del: slots_loop.simps)
    moreover have "slots_loop lib events d end_time c acc = Inr acc"
      using pm False by (subst slots_loop.simps) (simp del: slots_loop.simps)
    ultimately show ?thesis by simp
  next
    case True
    from "1.prems"(1) pm True obtain ok' next_time where
      av': "is_available lib events' c slot_end = Inr ok'" and
      pn: "plus_minutes lib c 30 = Inr next_time" and
      rec: "slots_loop lib events' d end_time next_time
              (if ok' then acc' @ [slot_dict lib (c, slot_end)] else acc') = Inr r'"
      by (subst (asm) slots_loop.simps) (auto split: sum.splits simp del: slots_loop.simps)
    define ok where "ok = (\<forall>b\<in>set (busy_intervals lib events). \<not> spec_overlaps (c, slot_end) b)"
    have av: "is_available lib events c slot_end = Inr ok"
      unfolding ok_def using parsed by (rule is_available_parsed)
    have "ok' = (\<forall>b\<in>set (busy_intervals lib events'). \<not> spec_overlaps (c, slot_end) b)"
      using av' is_available_parsed[OF "1.prems"(2), of c slot_end] by simp
    moreover have "set (busy_intervals lib events) \<subseteq> set (busy_intervals lib events')"
      using "1.prems"(3) by (auto simp: set_busy_intervals)
    ultimately have imp: "ok' \<longrightarrow> ok" unfolding ok_def by blast
    from "1.IH"[OF pm True av' pn rec "1.prems"(2,3),
        of "if ok then acc @ [slot_dict lib (c, slot_end)] else acc"]
    obtain r where r: "slots_loop lib events d end_time next_time
          (if ok then acc @ [slot_dict lib (c, slot_end)] else acc) = Inr r"
      and le: "length r' + length (if ok then acc @ [slot_dict lib (c, slot_end)] else acc)
          \<le> length r + length (if ok' then acc' @ [slot_dict lib (c, slot_end)] else acc')"
      by blast
    have "slots_loop lib events d end_time c acc = Inr r"
      using pm True av pn r by (subst slots_loop.simps) (simp del: slots_loop.simps)
    moreover have "length r' + length acc \<le> length r + length acc'"
      using le imp by (auto split: if_splits)
    ultimately show ?thesis by blast
  qed
qed


text \<open>
  C6. For one date and one duration, when every event that the backend lists in one
  answer is also in another answer, \<open>get_available_slots\<close> returns at most as many slots
  for the larger answer as for the smaller one. Nothing is asked of the events: an event
  that does not parse empties the result of every answer that holds it.
\<close>

theorem available_slots_monotone:
  assumes sp: "strptime lib date ''%Y-%m-%d'' = Inr target_date"
    and ls: "list_response svc b (isoformat lib (naive_datetime (replace_time target_date 9 0 0 0)) @ ''Z'')
           (isoformat lib (naive_datetime (replace_time target_date 17 0 0 0)) @ ''Z'') = Inr events"
    and ls': "list_response svc' b' (isoformat lib (naive_datetime (replace_time target_date 9 0 0 0)) @ ''Z'')
           (isoformat lib (naive_datetime (replace_time target_date 17 0 0 0)) @ ''Z'') = Inr events'"
    and sub: "set events \<subseteq> set events'"
  shows "length (get_available_slots lib svc' b' date duration_minutes)
         \<le> length (get_available_slots lib svc b date duration_minutes)"
proof -
  let ?S = "replace_time target_date 9 0 0 0"
  let ?E = "replace_time target_date 17 0 0 0"
  have body: "get_available_slots lib svc b date duration_minutes =
      (case slots_loop lib events duration_minutes ?E ?S [] of Inl e \<Rightarrow> [] | Inr s \<Rightarrow> s)"
    by (simp add: get_available_slots_def get_available_slots_try_def sp ls del: slots_loop.simps)
  have body': "get_available_slots lib svc' b' date duration_minutes =
      (case slots_loop lib events' duration_minutes ?E ?S [] of Inl e \<Rightarrow> [] | Inr s \<Rightarrow> s)"
    by (simp add: get_available_slots_def get_available_slots_try_def sp ls' del: slots_loop.simps)
  show ?thesis
  proof (cases "slots_loop lib events' duration_minutes ?E ?S []")
    case (Inl e)
    then show ?thesis by (simp add: body' del: slots_loop.simps)
  next
    case (Inr r')
    show ?thesis
    proof (cases "r' = []")
      case True
      then show ?thesis using Inr by (simp add: body' del: slots_loop.simps)
    next
      case False
      then have "length ([]::slot list) < length r'" by simp
      with slots_loop_grows[OF Inr]
      have parsed: "\<forall>ev\<in>set events'. event_interval lib ev \<noteq> None" by blast
      from slots_loop_mono[OF Inr parsed sub, of "[]"]
      obtain r where "slots_loop lib events duration_minutes ?E ?S [] = Inr r"
        and "length r' \<le> length r" by auto
      then show ?thesis using Inr by (simp add: body body' del: slots_loop.simps)
    qed
  qed
qed

theorem available_slots_monotone_witness:
  "strptime example_lib ''2024-01-10'' ''%Y-%m-%d'' = Inr example_day \<and>
   set (map listed []) \<subseteq> set (map listed (stored_events example_busy)) \<and>
   length (get_available_slots example_lib example_service example_busy ''2024-01-10'' 60)
     \<le> length (get_available_slots example_lib example_service [] ''2024-01-10'' 60)"
proof -
  have h1: "strptime example_lib ''2024-01-10'' ''%Y-%m-%d'' = Inr example_day"
    by (simp add: example_lib_def)
  have h2: "list_response example_service []
      (isoformat example_lib (naive_datetime (replace_time example_day 9 0 0 0)) @ ''Z'')
      (isoformat example_lib (naive_datetime (replace_time example_day 17 0 0 0)) @ ''Z'') =
      Inr (map listed [])"
    by (simp add: example_service_def stored_events_def)
  have h3: "list_response example_service example_busy
      (isoformat example_lib (naive_datetime (replace_time example_day 9 0 0 0)) @ ''Z'')
      (isoformat example_lib (naive_datetime (replace_time example_day 17 0 0 0)) @ ''Z'') =
      Inr (map listed (stored_events example_busy))"
    by (simp add: example_service_def)
  have h4: "set (map listed []) \<subseteq> set (map listed (stored_events example_busy))"
    by simp
  show ?thesis
    using available_slots_monotone[OF h1 h2 h3 h4, of 60] h1 h4 by blast
qed


text \<open>
  C7. The result of \<open>get_available_slots\<close> is a function of the date, the duration and
  the backend's answers to the query alone: two backends that answer the query alike,
  whatever else they hold and however they treat insertions, give the same slots.
\<close>

theorem available_slots_deterministic:
  assumes "\<forall>time_min time_max.
             list_response svc b time_min time_max = list_response svc' b' time_min time_max"
  shows "get_available_slots lib svc b date duration_minutes =
         get_available_slots lib svc' b' date duration_minutes"
proof -
  have "get_available_slots_try lib svc b date duration_minutes =
        get_available_slots_try lib svc' b' date duration_minutes"
  proof (cases "strptime lib date ''%Y-%m-%d''")
    case (Inl e)
    then show ?thesis by (simp add: get_available_slots_try_def)
  next
    case (Inr target_date)
    then show ?thesis
      using assms by (simp add: get_available_slots_try_def del: slots_loop.simps)
  qed
  then show ?thesis by (simp only: get_available_slots_def)
qed

theorem available_slots_deterministic_witness:
  "(\<forall>time_min time_max.
      list_response example_service example_busy time_min time_max =
      list_response example_readonly_service [] time_min time_max) \<and>
   insert_response example_service \<noteq> insert_response example_readonly_service \<and>
   get_available_slots example_lib example_service example_busy ''2024-01-10'' 60 =
   get_available_slots example_lib example_readonly_service [] ''2024-01-10'' 60"
proof -
  have h: "\<forall>time_min time_max.
      list_response example_service example_busy time_min time_max =
      list_response example_readonly_service [] time_min time_max"
    by (simp add: example_service_def example_readonly_service_def)
  have "insert_response example_service [] body \<noteq> insert_response example_readonly_service [] body"
    for body
    by (simp add: example_service_def example_readonly_service_def)
  then have d: "insert_response example_service \<noteq> insert_response example_readonly_service"
    by metis
  show ?thesis
    using available_slots_deterministic[OF h, of example_lib "''2024-01-10''" 60] h d by blast
qed

section \<open>The booking operation\<close>

lemma stored_events_append:
  "stored_events (b @ [(answer, body)]) =
   stored_events b @ (case answer of Inl e \<Rightarrow> [] | Inr c \<Rightarrow> [(c, body)])"
  by (simp add: stored_events_def)

lemma create_event_cases:
  "create_event lib svc b title start_datetime duration_minutes description =
     (case fromisoformat lib start_datetime of
        Inl e \<Rightarrow> (failed_result e, b)
      | Inr start_time \<Rightarrow>
          (case aware_plus_minutes lib start_time duration_minutes of
             Inl e \<Rightarrow> (failed_result e, b)
           | Inr end_time \<Rightarrow>
               (case insert_response svc b (event_of lib title description start_time end_time) of
                  Inl e \<Rightarrow>
                    (failed_result e,
                     b @ [(Inl e, event_of lib title description start_time end_time)])
                | Inr c \<Rightarrow>
                    (created_result title c,
                     b @ [(Inr c, event_of lib title description start_time end_time)]))))"
  by (simp add: create_event_def events_insert_def split: sum.splits)

lemma example_fromisoformat:
  "fromisoformat example_lib ''2024-01-10T10:00:00'' =
   Inr (naive_datetime (example_day + 10 * us_per_hour))"
  by (simp add: example_lib_def)

lemma example_plus_minutes:
  assumes "- 600 \<le> n" "n \<le> 600"
  shows "aware_plus_minutes example_lib (naive_datetime (example_day + 10 * us_per_hour)) n =
         Inr (naive_datetime (example_day + 10 * us_per_hour + n * us_per_minute))"
  using assms
  by (simp add: aware_plus_minutes_def plus_minutes_def naive_datetime_def in_range_def
      example_day_def us_per_hour_def us_per_minute_def datetime_end_def)

lemma example_create_event:
  assumes "- 600 \<le> n" "n \<le> 600"
  shows "create_event example_lib svc b title ''2024-01-10T10:00:00'' n description =
     (case insert_response svc b
             (event_of example_lib title description
                (naive_datetime (example_day + 10 * us_per_hour))
                (naive_datetime (example_day + 10 * us_per_hour + n * us_per_minute))) of
        Inl e \<Rightarrow>
          (failed_result e,
           b @ [(Inl e, event_of example_lib title description
                  (naive_datetime (example_day + 10 * us_per_hour))
                  (naive_datetime (example_day + 10 * us_per_hour + n * us_per_minute)))])
      | Inr c \<Rightarrow>
          (created_result title c,
           b @ [(Inr c, event_of example_lib title description
                  (naive_datetime (example_day + 10 * us_per_hour))
                  (naive_datetime (example_day + 10 * us_per_hour + n * us_per_minute)))]))"
  by (simp add: create_event_cases example_fromisoformat example_plus_minutes[OF assms])

lemma example_busy_interval:
  "busy_intervals example_lib (map listed (stored_events example_busy)) =
   [(example_day + 10 * us_per_hour, example_day + 11 * us_per_hour)]"
  by (simp add: busy_intervals_def map_filter_simps stored_events_def example_busy_def listed_def
      event_interval_def event_datetime_def replace_Z_def example_lib_def naive_datetime_def)

lemma example_book_appointment:
  assumes "int_of_str example_lib duration = Inr n" "- 600 \<le> n" "n \<le> 600"
  shows "book_appointment example_lib example_service b title ''2024-01-10'' ''10:00'' duration =
     (Inr (check_mark @ '' Appointment '' @ quote @ title @ quote @
           '' booked successfully for 2024-01-10 at 10:00!''),
      snd (create_event example_lib example_service b title ''2024-01-10T10:00:00'' n []))"
proof -
  have sp: "strptime example_lib ''2024-01-10 10:00'' ''%Y-%m-%d %H:%M'' =
      Inr (example_day + 10 * us_per_hour)"
    by (simp add: example_lib_def)
  have iso: "isoformat example_lib (naive_datetime (example_day + 10 * us_per_hour)) =
      ''2024-01-10T10:00:00''"
    by (simp add: example_lib_def naive_datetime_def example_day_def us_per_hour_def
        us_per_day_def us_per_minute_def two_digits_def digit_def)
  obtain result b' where ce:
    "create_event example_lib example_service b title ''2024-01-10T10:00:00'' n [] = (result, b')"
    by (cases "create_event example_lib example_service b title ''2024-01-10T10:00:00'' n []")
  have ok: "success result"
    using ce by (auto simp: example_create_event[OF assms(2,3)] example_service_def created_result_def)
  show ?thesis
    by (simp add: book_appointment_def book_appointment_try_def sp iso assms(1) ce ok)
qed

text \<open>
  C8. Whatever \<open>create_event\<close> is given: when it reports success, the start parsed, the
  backend accepted the one request, the result carries the identifier the backend
  assigned, and the calendar holds exactly one event more; when it reports failure, the
  message is the text of the exception after \<open>Failed to create event: \<close> and the
  calendar holds the events it held. An exception of the backend gives the failure result
  of that exception. In every case the backend received at most one request.
\<close>

theorem create_event_outcome:
  assumes "create_event lib svc b title start_datetime duration_minutes description = (result, b')"
  shows "(success result \<longrightarrow>
           (\<exists>start_time end_time c.
              fromisoformat lib start_datetime = Inr start_time \<and>
              aware_plus_minutes lib start_time duration_minutes = Inr end_time \<and>
              insert_response svc b (event_of lib title description start_time end_time) = Inr c \<and>
              result = created_result title c \<and>
              event_id result = Some (created_id c) \<and>
              b' = b @ [(Inr c, event_of lib title description start_time end_time)] \<and>
              stored_events b' =
                stored_events b @ [(c, event_of lib title description start_time end_time)])) \<and>
         (\<not> success result \<longrightarrow>
           (\<exists>e. result = failed_result e \<and>
                message result = ''Failed to create event: '' @ str e) \<and>
           stored_events b' = stored_events b) \<and>
         (\<forall>start_time end_time e.
            fromisoformat lib start_datetime = Inr start_time \<and>
            aware_plus_minutes lib start_time duration_minutes = Inr end_time \<and>
            insert_response svc b (event_of lib title description start_time end_time) = Inl e \<longrightarrow>
            result = failed_result e \<and>
            b' = b @ [(Inl e, event_of lib title description start_time end_time)]) \<and>
         length b' \<le> length b + 1 \<and>
         length (stored_events b') =
           length (stored_events b) + (if success result then 1 else 0)"
proof (cases "fromisoformat lib start_datetime")
  case (Inl e)
  then have "result = failed_result e" "b' = b"
    using assms by (simp_all add: create_event_cases)
  then show ?thesis using Inl by (simp add: failed_result_def) blast
next
  case parsed: (Inr start_time)
  show ?thesis
  proof (cases "aware_plus_minutes lib start_time duration_minutes")
    case (Inl e)
    then have "result = failed_result e" "b' = b"
      using assms parsed by (simp_all add: create_event_cases)
    then show ?thesis using parsed Inl by (simp add: failed_result_def) blast
  next
    case ended: (Inr end_time)
    show ?thesis
    proof (cases "insert_response svc b (event_of lib title description start_time end_time)")
      case (Inl e)
      then have "result = failed_result e"
        "b' = b @ [(Inl e, event_of lib title description start_time end_time)]"
        using assms parsed ended by (simp_all add: create_event_cases)
      then show ?thesis
        using parsed ended Inl by (simp add: failed_result_def stored_events_append) blast
    next
      case (Inr c)
      then have "result = created_result title c"
        "b' = b @ [(Inr c, event_of lib title description start_time end_time)]"
        using assms parsed ended by (simp_all add: create_event_cases)
      then show ?thesis
        using parsed ended Inr by (simp add: created_result_def stored_events_append)
    qed
  qed
qed

theorem create_event_outcome_witness:
  "success (fst (create_event example_lib example_service [] ''Standup'' ''2024-01-10T10:00:00'' 30 [])) \<and>
   event_id (fst (create_event example_lib example_service [] ''Standup'' ''2024-01-10T10:00:00'' 30 []))
     = Some ''event00'' \<and>
   length (stored_events
     (snd (create_event example_lib example_service [] ''Standup'' ''2024-01-10T10:00:00'' 30 []))) = 1 \<and>
   \<not> success (fst (create_event example_lib example_readonly_service [] ''Standup''
                      ''2024-01-10T10:00:00'' 30 [])) \<and>
   message (fst (create_event example_lib example_readonly_service [] ''Standup''
                   ''2024-01-10T10:00:00'' 30 []))
     = ''Failed to create event: HttpError 403: Forbidden'' \<and>
   stored_events (snd (create_event example_lib example_readonly_service [] ''Standup''
                         ''2024-01-10T10:00:00'' 30 [])) = []"
proof -
  obtain result b' where ok:
    "create_event example_lib example_service [] ''Standup'' ''2024-01-10T10:00:00'' 30 [] = (result, b')"
    by (cases "create_event example_lib example_service [] ''Standup'' ''2024-01-10T10:00:00'' 30 []")
  have s: "success result" and i: "event_id result = Some ''event00''"
    using ok
    by (auto simp: example_create_event example_service_def created_result_def two_digits_def digit_def)
  from create_event_outcome[OF ok] s
  have n: "length (stored_events b') = 1" by (simp add: stored_events_def)
  obtain failure b'' where ko:
    "create_event example_lib example_readonly_service [] ''Standup'' ''2024-01-10T10:00:00'' 30 []
       = (failure, b'')"
    by (cases "create_event example_lib example_readonly_service [] ''Standup'' ''2024-01-10T10:00:00'' 30 []")
  have f: "\<not> success failure" and m: "message failure = ''Failed to create event: HttpError 403: Forbidden''"
    using ko
    by (auto simp: example_create_event example_readonly_service_def failed_result_def)
  from create_event_outcome[OF ko] f
  have z: "stored_events b'' = []" by (simp add: stored_events_def)
  show ?thesis
    using s i n f m z by (simp add: ok ko)
qed

text \<open>
  A counterexample to the claim as the specification states it. The calendar holds an
  event from 10:00 to 11:00. A booking of 60 minutes at 10:00
  conflicts with it by the test of line 70, and still succeeds: the calendar then holds
  two events, and the tool reports the appointment as booked.
\<close>

theorem booking_conflict_counterexample:
  "list_response example_service example_busy
     (isoformat example_lib (naive_datetime (replace_time example_day 9 0 0 0)) @ ''Z'')
     (isoformat example_lib (naive_datetime (replace_time example_day 17 0 0 0)) @ ''Z'') =
     Inr (map listed (stored_events example_busy)) \<and>
   busy_intervals example_lib (map listed (stored_events example_busy)) =
     [(example_day + 10 * us_per_hour, example_day + 11 * us_per_hour)] \<and>
   conflicts (example_day + 10 * us_per_hour) (example_day + 10 * us_per_hour + 60 * us_per_minute)
     (example_day + 10 * us_per_hour) (example_day + 11 * us_per_hour) \<and>
   success (fst (create_event example_lib example_service example_busy ''Standup''
                   ''2024-01-10T10:00:00'' 60 [])) \<and>
   length (stored_events example_busy) = 1 \<and>
   length (stored_events (snd (create_event example_lib example_service example_busy ''Standup''
                                 ''2024-01-10T10:00:00'' 60 []))) = 2 \<and>
   fst (book_appointment example_lib example_service example_busy ''Standup'' ''2024-01-10'' ''10:00'' ''60'') =
     Inr (check_mark @ '' Appointment '' @ quote @ ''Standup'' @ quote @
          '' booked successfully for 2024-01-10 at 10:00!'')"
proof -
  have i: "int_of_str example_lib ''60'' = Inr 60"
    by (simp add: example_lib_def)
  have "fst (book_appointment example_lib example_service example_busy ''Standup'' ''2024-01-10'' ''10:00'' ''60'') =
     Inr (check_mark @ '' Appointment '' @ quote @ ''Standup'' @ quote @
          '' booked successfully for 2024-01-10 at 10:00!'')"
    by (simp add: example_book_appointment[OF i])
  then show ?thesis
    by (simp add: example_busy_interval example_create_event)
       (simp add: example_service_def created_result_def stored_events_def example_busy_def
          conflicts_def us_per_hour_def us_per_minute_def)
qed

text \<open>
  C2, as amended. \<open>create_event\<close> makes no conflict check: once the start parses and the
  end is a datetime, the request is sent whatever the calendar holds, and the outcome is
  the backend's answer to it: success and one event more when it accepts, the failure
  result of its exception when it raises. What the backend answers to queries has no
  part in it.
\<close>

theorem create_event_no_conflict_check:
  assumes "fromisoformat lib start_datetime = Inr start_time"
    and "aware_plus_minutes lib start_time duration_minutes = Inr end_time"
  shows "create_event lib svc b title start_datetime duration_minutes description =
           (case insert_response svc b (event_of lib title description start_time end_time) of
              Inl e \<Rightarrow>
                (failed_result e, b @ [(Inl e, event_of lib title description start_time end_time)])
            | Inr c \<Rightarrow>
                (created_result title c,
                 b @ [(Inr c, event_of lib title description start_time end_time)])) \<and>
         create_event lib (svc\<lparr>list_response := answers\<rparr>) b title start_datetime
             duration_minutes description =
           create_event lib svc b title start_datetime duration_minutes description"
  by (simp add: create_event_cases assms)

theorem create_event_no_conflict_check_witness:
  "fromisoformat example_lib ''2024-01-10T10:00:00'' =
     Inr (naive_datetime (example_day + 10 * us_per_hour)) \<and>
   aware_plus_minutes example_lib (naive_datetime (example_day + 10 * us_per_hour)) 60 =
     Inr (naive_datetime (example_day + 10 * us_per_hour + 60 * us_per_minute)) \<and>
   fst (create_event example_lib example_service example_busy ''Standup'' ''2024-01-10T10:00:00'' 60 [])
     = created_result ''Standup'' \<lparr>created_id = ''event01'', htmlLink = None\<rparr> \<and>
   fst (create_event example_lib example_readonly_service example_busy ''Standup''
          ''2024-01-10T10:00:00'' 60 [])
     = failed_result (Exception ''HttpError 403: Forbidden'')"
proof -
  have h1: "fromisoformat example_lib ''2024-01-10T10:00:00'' =
      Inr (naive_datetime (example_day + 10 * us_per_hour))"
    by (rule example_fromisoformat)
  have h2: "aware_plus_minutes example_lib (naive_datetime (example_day + 10 * us_per_hour)) 60 =
      Inr (naive_datetime (example_day + 10 * us_per_hour + 60 * us_per_minute))"
    by (rule example_plus_minutes) simp_all
  have "fst (create_event example_lib example_service example_busy ''Standup'' ''2024-01-10T10:00:00'' 60 [])
     = created_result ''Standup'' \<lparr>created_id = ''event01'', htmlLink = None\<rparr>"
    using create_event_no_conflict_check[OF h1 h2, of example_service example_busy "''Standup''" "[]"]
    by (simp add: example_service_def example_busy_def two_digits_def digit_def)
  moreover have "fst (create_event example_lib example_readonly_service example_busy ''Standup''
          ''2024-01-10T10:00:00'' 60 [])
     = failed_result (Exception ''HttpError 403: Forbidden'')"
    using create_event_no_conflict_check[OF h1 h2, of example_readonly_service example_busy "''Standup''" "[]"]
    by (simp add: example_readonly_service_def)
  ultimately show ?thesis using h1 h2 by blast
qed

text \<open>
  A counterexample to the claim as the specification states it. A booking whose start
  lies before the reading of the clock succeeds, and so does, at
  the function and at the tool, a booking of minus 30 minutes, whose end lies before its
  start; a backend that refuses the latter has received the request all the same.
\<close>

theorem booking_validation_counterexample:
  "example_day + 10 * us_per_hour < example_now \<and>
   success (fst (create_event example_lib example_service [] ''Standup'' ''2024-01-10T10:00:00'' 60 [])) \<and>
   length (stored_events
     (snd (create_event example_lib example_service [] ''Standup'' ''2024-01-10T10:00:00'' 60 []))) = 1 \<and>
   aware_plus_minutes example_lib (naive_datetime (example_day + 10 * us_per_hour)) (- 30) =
     Inr (naive_datetime (example_day + 10 * us_per_hour + - 30 * us_per_minute)) \<and>
   example_day + 10 * us_per_hour + - 30 * us_per_minute < example_day + 10 * us_per_hour \<and>
   success (fst (create_event example_lib example_service [] ''Standup'' ''2024-01-10T10:00:00'' (- 30) [])) \<and>
   length (stored_events
     (snd (create_event example_lib example_service [] ''Standup'' ''2024-01-10T10:00:00'' (- 30) []))) = 1 \<and>
   length (snd (create_event example_lib example_readonly_service [] ''Standup''
                  ''2024-01-10T10:00:00'' (- 30) [])) = 1 \<and>
   fst (book_appointment example_lib example_service [] ''Standup'' ''2024-01-10'' ''10:00'' ''-30'') =
     Inr (check_mark @ '' Appointment '' @ quote @ ''Standup'' @ quote @
          '' booked successfully for 2024-01-10 at 10:00!'')"
proof -
  have i: "int_of_str example_lib ''-30'' = Inr (- 30)"
    by (simp add: example_lib_def)
  have "fst (book_appointment example_lib example_service [] ''Standup'' ''2024-01-10'' ''10:00'' ''-30'') =
     Inr (check_mark @ '' Appointment '' @ quote @ ''Standup'' @ quote @
          '' booked successfully for 2024-01-10 at 10:00!'')"
    by (simp add: example_book_appointment[OF i])
  moreover have "example_day + 10 * us_per_hour < example_now"
    by (simp add: example_day_def example_now_def us_per_hour_def)
  moreover have "example_day + 10 * us_per_hour + - 30 * us_per_minute < example_day + 10 * us_per_hour"
    by (simp add: us_per_minute_def)
  ultimately show ?thesis
    by (simp add: example_create_event example_plus_minutes)
       (simp add: example_service_def example_readonly_service_def created_result_def stored_events_def)
qed

text \<open>
  C3, as amended. \<open>create_event\<close> reads no clock and compares no start with an end. It
  fails in exactly three cases: the start does not parse, the end is not a datetime of the
  years 1 to 9999, or the backend raises; and it sends nothing to the backend in exactly
  the first two.
\<close>

theorem create_event_failure_cases:
  "(\<not> success (fst (create_event lib svc b title start_datetime duration_minutes description))) =
     ((\<exists>e. fromisoformat lib start_datetime = Inl e) \<or>
      (\<exists>start_time. fromisoformat lib start_datetime = Inr start_time \<and>
         ((\<exists>e. aware_plus_minutes lib start_time duration_minutes = Inl e) \<or>
          (\<exists>end_time e. aware_plus_minutes lib start_time duration_minutes = Inr end_time \<and>
             insert_response svc b (event_of lib title description start_time end_time) = Inl e)))) \<and>
   (snd (create_event lib svc b title start_datetime duration_minutes description) = b) =
     ((\<exists>e. fromisoformat lib start_datetime = Inl e) \<or>
      (\<exists>start_time e. fromisoformat lib start_datetime = Inr start_time \<and>
         aware_plus_minutes lib start_time duration_minutes = Inl e))"
proof (cases "fromisoformat lib start_datetime")
  case (Inl e)
  then show ?thesis by (simp add: create_event_cases failed_result_def)
next
  case parsed: (Inr start_time)
  show ?thesis
  proof (cases "aware_plus_minutes lib start_time duration_minutes")
    case (Inl e)
    then show ?thesis using parsed by (simp add: create_event_cases failed_result_def)
  next
    case ended: (Inr end_time)
    show ?thesis
    proof (cases "insert_response svc b (event_of lib title description start_time end_time)")
      case (Inl e)
      then show ?thesis using parsed ended by (simp add: create_event_cases failed_result_def)
    next
      case (Inr c)
      then show ?thesis using parsed ended by (simp add: create_event_cases created_result_def)
    qed
  qed
qed

theorem create_event_failure_cases_witness:
  "success (fst (create_event example_lib example_service [] ''Standup'' ''2024-01-10T10:00:00'' (- 30) [])) \<and>
   \<not> success (fst (create_event example_lib example_service [] ''Standup'' ''tomorrow at ten'' 60 [])) \<and>
   snd (create_event example_lib example_service [] ''Standup'' ''tomorrow at ten'' 60 []) = []"
proof -
  have p: "fromisoformat example_lib ''2024-01-10T10:00:00'' =
      Inr (naive_datetime (example_day + 10 * us_per_hour))"
    by (rule example_fromisoformat)
  have a: "aware_plus_minutes example_lib (naive_datetime (example_day + 10 * us_per_hour)) (- 30) =
      Inr (naive_datetime (example_day + 10 * us_per_hour + - 30 * us_per_minute))"
    by (rule example_plus_minutes) simp_all
  have i: "insert_response example_service [] body = Inr \<lparr>created_id = ''event00'', htmlLink = None\<rparr>"
    for body
    by (simp add: example_service_def two_digits_def digit_def)
  have q: "fromisoformat example_lib ''tomorrow at ten'' =
      Inl (Exception (''Invalid isoformat string: '' @ quote @ ''tomorrow at ten'' @ quote))"
    by (simp add: example_lib_def)
  have "success (fst (create_event example_lib example_service [] ''Standup'' ''2024-01-10T10:00:00'' (- 30) []))"
    using create_event_failure_cases[of example_lib example_service "[]" "''Standup''"
        "''2024-01-10T10:00:00''" "- 30" "[]"]
    by (simp add: p a i)
  moreover have "\<not> success (fst (create_event example_lib example_service [] ''Standup'' ''tomorrow at ten'' 60 [])) \<and>
      snd (create_event example_lib example_service [] ''Standup'' ''tomorrow at ten'' 60 []) = []"
    using create_event_failure_cases[of example_lib example_service "[]" "''Standup''"
        "''tomorrow at ten''" 60 "[]"]
    by (simp add: q)
  ultimately show ?thesis by blast
qed

section \<open>The tools\<close>

lemma split_lines_append:
  "CHR 0x0A \<notin> set xs \<Longrightarrow> split_lines (xs @ CHR 0x0A # ys) = xs # split_lines ys"
  by (induction xs) auto

lemma split_lines_line:
  "CHR 0x0A \<notin> set xs \<Longrightarrow> split_lines xs = [xs]"
  by (induction xs) auto

lemma split_lines_join:
  "xs \<noteq> [] \<Longrightarrow> \<forall>x\<in>set xs. CHR 0x0A \<notin> set x \<Longrightarrow>
   split_lines (join newline xs) = xs"
proof (induction xs rule: induct_list012)
  case 1
  then show ?case by simp
next
  case (2 x)
  then show ?case by (simp add: split_lines_line)
next
  case (3 x y zs)
  then show ?case by (simp add: newline_def split_lines_append)
qed

lemma digit_is_decimal:
  assumes "0 \<le> d" "d < 10"
  shows "digit d \<in> set ''0123456789''"
proof -
  have "nat d < length ''0123456789''" using assms by simp
  then show ?thesis unfolding digit_def by (rule nth_mem)
qed

lemma two_digits_no_newline:
  assumes "0 \<le> n" "n < 100"
  shows "CHR 0x0A \<notin> set (two_digits n)"
proof -
  have "digit (n div 10) \<in> set ''0123456789''"
    using assms by (intro digit_is_decimal) simp_all
  moreover have "digit (n mod 10) \<in> set ''0123456789''"
    by (intro digit_is_decimal) simp_all
  ultimately show ?thesis by (auto simp: two_digits_def)
qed

lemma strftime_no_newline:
  "CHR 0x0A \<notin> set (strftime lib t ''%H:%M'')"
proof -
  have "0 \<le> t mod us_per_day div us_per_hour" "t mod us_per_day div us_per_hour < 100"
    "0 \<le> t mod us_per_hour div us_per_minute" "t mod us_per_hour div us_per_minute < 100"
    by (simp_all add: us_per_day_def us_per_hour_def us_per_minute_def pos_imp_zdiv_nonneg_iff
        div_less_iff_less_mult) 
  then show ?thesis
    by (simp add: strftime_def two_digits_no_newline)
qed

lemma slot_line_no_newline:
  "CHR 0x0A \<notin> set (slot_line (slot_dict lib iv))"
  using strftime_no_newline[of lib "fst iv"] strftime_no_newline[of lib "snd iv"]
  by (simp add: slot_line_def slot_dict_def)


lemma slots_loop_dicts:
  "slots_loop lib events d end_time c acc = Inr r \<Longrightarrow>
   \<forall>s\<in>set r. s \<in> set acc \<or> (\<exists>iv. s = slot_dict lib iv)"
proof (induction lib events d end_time c acc rule: slots_loop.induct)
  case (1 lib events d end_time c acc)
  from "1.prems" obtain slot_end where pm: "plus_minutes lib c d = Inr slot_end"
    by (subst (asm) slots_loop.simps) (auto split: sum.splits simp del: slots_loop.simps)
  show ?case
  proof (cases "slot_end \<le> end_time")
    case False
    with "1.prems" pm have "r = acc"
      by (subst (asm) slots_loop.simps) (simp del: slots_loop.simps)
    then show ?thesis by simp
  next
    case True
    from "1.prems" pm True obtain ok next_time where
      av: "is_available lib events c slot_end = Inr ok" and
      pn: "plus_minutes lib c 30 = Inr next_time" and
      rec: "slots_loop lib events d end_time next_time
              (if ok then acc @ [slot_dict lib (c, slot_end)] else acc) = Inr r"
      by (subst (asm) slots_loop.simps) (auto split: sum.splits simp del: slots_loop.simps)
    from "1.IH"[OF pm True av pn rec] show ?thesis
      by (auto split: if_splits)
  qed
qed

lemma get_available_slots_dicts:
  "\<forall>s\<in>set (get_available_slots lib svc b date duration_minutes). \<exists>iv. s = slot_dict lib iv"
proof (cases "get_available_slots_try lib svc b date duration_minutes")
  case (Inl e)
  then show ?thesis by (simp add: get_available_slots_def)
next
  case (Inr r)
  then obtain events end_time start_time where
    "slots_loop lib events duration_minutes end_time start_time [] = Inr r"
    by (auto simp: get_available_slots_try_def Let_def split: sum.splits simp del: slots_loop.simps)
  from slots_loop_dicts[OF this] show ?thesis
    using Inr by (simp add: get_available_slots_def)
qed

lemma example_free_day:
  "get_available_slots example_lib example_service [] ''2024-01-10'' 60 =
   map (slot_dict example_lib)
     (map (candidate (replace_time example_day 9 0 0 0) (60 * us_per_minute) (30 * us_per_minute))
        [0, 1, 2, 3, 4, 5, 6, 7, 8, 9, 10, 11, 12, 13, 14])"
proof -
  have h1: "strptime example_lib ''2024-01-10'' ''%Y-%m-%d'' = Inr example_day"
    by (simp add: example_lib_def)
  have h2: "in_range example_day"
    by (simp add: in_range_def example_day_def datetime_end_def)
  have h3: "list_response example_service []
      (isoformat example_lib (naive_datetime (replace_time example_day 9 0 0 0)) @ ''Z'')
      (isoformat example_lib (naive_datetime (replace_time example_day 17 0 0 0)) @ ''Z'') = Inr []"
    by (simp add: example_service_def stored_events_def)
  have h4: "\<forall>ev\<in>set []. event_interval example_lib ev \<noteq> None" by simp
  have h5: "slots_in_range example_day 60"
    by (simp add: slots_in_range_def)
  have step: "(0::int) < 30 * us_per_minute" by (simp add: us_per_minute_def)
  have cnt: "candidate_count (replace_time example_day 9 0 0 0) (replace_time example_day 17 0 0 0)
     (60 * us_per_minute) (30 * us_per_minute) = 15"
    by (simp add: candidate_count_def example_day_midnight us_per_hour_def us_per_minute_def)
  have upt: "[0..<15] = [0, 1, 2, 3, 4, 5, 6, 7, 8, 9, 10, 11, 12, 13, 14::nat]"
    by code_simp
  have "busy_intervals example_lib [] = []"
    by (simp add: busy_intervals_def map_filter_simps)
  then show ?thesis
    using get_available_slots_refines[OF h1 h2 h3 h4 h5]
    by (simp only: spec_available_slots_def spec_generate_closed_form[OF step] cnt upt) simp
qed

text \<open>
  C10. When the availability computation yields more than 8 slots, the text of
  \<open>check_availability\<close> is the heading line followed by the lines of the first 8 slots,
  in their order and joined by newlines: read back line by line, the body is exactly
  these 8 lines, and nothing tells that more slots exist.
\<close>

theorem check_availability_first_eight:
  assumes "8 < length (get_available_slots lib svc b date_str 60)"
  shows "check_availability lib svc b date_str =
           Inr (''Available slots for '' @ date_str @ '':'' @ newline @
                join newline (map slot_line (take 8 (get_available_slots lib svc b date_str 60)))) \<and>
         split_lines (join newline (map slot_line (take 8 (get_available_slots lib svc b date_str 60)))) =
           map slot_line (take 8 (get_available_slots lib svc b date_str 60)) \<and>
         length (split_lines
           (join newline (map slot_line (take 8 (get_available_slots lib svc b date_str 60))))) = 8"
proof -
  let ?slots = "get_available_slots lib svc b date_str 60"
  have ne: "?slots \<noteq> []" using assms by auto
  then have out: "check_availability lib svc b date_str =
      Inr (''Available slots for '' @ date_str @ '':'' @ newline @
           join newline (map slot_line (take 8 ?slots)))"
    by (simp add: check_availability_def check_availability_try_def Let_def)
  have "\<forall>x\<in>set (map slot_line (take 8 ?slots)). CHR 0x0A \<notin> set x"
  proof
    fix x assume "x \<in> set (map slot_line (take 8 ?slots))"
    then obtain s where "s \<in> set ?slots" "x = slot_line s"
      by (auto dest: in_set_takeD)
    moreover from this obtain iv where "s = slot_dict lib iv"
      using get_available_slots_dicts[of lib svc b date_str 60] by blast
    ultimately show "CHR 0x0A \<notin> set x"
      by (simp add: slot_line_no_newline)
  qed
  moreover have "map slot_line (take 8 ?slots) \<noteq> []" using ne by simp
  ultimately have lines: "split_lines (join newline (map slot_line (take 8 ?slots))) =
      map slot_line (take 8 ?slots)"
    by (intro split_lines_join)
  have "length (map slot_line (take 8 ?slots)) = 8" using assms by simp
  with out lines show ?thesis by (simp only:)
qed


theorem check_availability_first_eight_witness:
  "length (get_available_slots example_lib example_service [] ''2024-01-10'' 60) = 15 \<and>
   check_availability example_lib example_service [] ''2024-01-10'' =
     Inr (''Available slots for 2024-01-10:'' @ newline @
          join newline
            [''09:00 - 10:00'', ''09:30 - 10:30'', ''10:00 - 11:00'', ''10:30 - 11:30'',
             ''11:00 - 12:00'', ''11:30 - 12:30'', ''12:00 - 13:00'', ''12:30 - 13:30''])"
proof -
  have n: "length (get_available_slots example_lib example_service [] ''2024-01-10'' 60) = 15"
    by (simp add: example_free_day)
  then have h: "8 < length (get_available_slots example_lib example_service [] ''2024-01-10'' 60)"
    by simp
  have "map slot_line (take 8 (get_available_slots example_lib example_service [] ''2024-01-10'' 60)) =
      [''09:00 - 10:00'', ''09:30 - 10:30'', ''10:00 - 11:00'', ''10:30 - 11:30'',
       ''11:00 - 12:00'', ''11:30 - 12:30'', ''12:00 - 13:00'', ''12:30 - 13:30'']"
    by (simp add: example_free_day candidate_def slot_line_def slot_dict_def us_per_minute_def
        strftime_from_nine strftime_from_nine_right strftime_nine two_digits_def digit_def)
  moreover have "check_availability example_lib example_service [] ''2024-01-10'' =
      Inr (''Available slots for '' @ ''2024-01-10'' @ '':'' @ newline @
           join newline (map slot_line
             (take 8 (get_available_slots example_lib example_service [] ''2024-01-10'' 60))))"
    using check_availability_first_eight[OF h] by (rule conjunct1)
  ultimately have "check_availability example_lib example_service [] ''2024-01-10'' =
      Inr (''Available slots for '' @ ''2024-01-10'' @ '':'' @ newline @
           join newline
            [''09:00 - 10:00'', ''09:30 - 10:30'', ''10:00 - 11:00'', ''10:30 - 11:30'',
             ''11:00 - 12:00'', ''11:30 - 12:30'', ''12:00 - 13:00'', ''12:30 - 13:30''])"
    by (simp only:)
  then show ?thesis
    using n by (simp del: join.simps)
qed








end
